theory Spec2Isabelle
  imports Complex_Main "HOL-Library.Log_Nat"
begin

section \<open>Data model\<close>

text \<open>
  A course record as the endpoint delivers it and as both components read it
  (\<^verbatim>\<open>course.id\<close>, \<^verbatim>\<open>course.name\<close>, ...). The field \<^verbatim>\<open>id\<close> is named
  \<open>id_course\<close> here, because \<open>id\<close> is the identity function of HOL. A JavaScript number
  decoded from JSON is a finite binary64 value; it is kept as the rational it denotes.
\<close>

record course =
  id_course :: int
  name :: string
  location :: string
  difficulty_rating :: rat
  price_range :: string
  description :: string

text \<open>
  \<^verbatim>\<open>response.data\<close> is whatever the body of the response decodes to: \<^verbatim>\<open>axios.get\<close>,
  called with the URL alone, resolves on every status from 200 to 299, and delivers a JSON
  body decoded and any other body as the string it is. Both components store it without
  looking at it (\<^verbatim>\<open>setCourses(response.data)\<close>), so the hook \<^verbatim>\<open>courses\<close> holds an
  arbitrary value. An array is a list whose elements are \<^verbatim>\<open>null\<close> (\<open>None\<close>) or a
  course record; an element of another shape does not make a component throw (a missing
  property reads as \<^verbatim>\<open>undefined\<close>) and is not modelled. Of a value that is not an array
  only the kind is kept: the components use \<^verbatim>\<open>courses\<close> in one place, the call
  \<^verbatim>\<open>courses.map(...)\<close>.
\<close>

datatype js_value =
    JArray "course option list"
  | JObject
  | JString string
  | JNumber rat
  | JBool bool
  | JNull

fun elements :: "js_value \<Rightarrow> course option list" where
  "elements (JArray xs) = xs"
| "elements v = []"

text \<open>
  The hooks of \<^verbatim>\<open>src/frontend/src/App.jsx\<close> (lines 6-8): \<^verbatim>\<open>useState([])\<close>,
  \<^verbatim>\<open>useState(true)\<close>, \<^verbatim>\<open>useState(null)\<close>. The variant with the detail overlay
  (\<^verbatim>\<open>src/unnamed/part_000\<close>, lines 6-10) has the same three hooks and two more, so
  its state extends the first record and the setters below serve both components.
\<close>

record app_state =
  courses :: js_value
  loading :: bool
  error :: "string option"

record detail_state = app_state +
  selectedCourse :: "course option"
  showModal :: bool

definition setCourses :: "js_value \<Rightarrow> 'a app_state_scheme \<Rightarrow> 'a app_state_scheme" where
  "setCourses d s = s\<lparr>courses := d\<rparr>"

definition setLoading :: "bool \<Rightarrow> 'a app_state_scheme \<Rightarrow> 'a app_state_scheme" where
  "setLoading b s = s\<lparr>loading := b\<rparr>"

definition setError :: "string \<Rightarrow> 'a app_state_scheme \<Rightarrow> 'a app_state_scheme" where
  "setError m s = s\<lparr>error := Some m\<rparr>"

definition setSelectedCourse :: "course option \<Rightarrow> detail_state \<Rightarrow> detail_state" where
  "setSelectedCourse x s = s\<lparr>selectedCourse := x\<rparr>"

definition setShowModal :: "bool \<Rightarrow> detail_state \<Rightarrow> detail_state" where
  "setShowModal b s = s\<lparr>showModal := b\<rparr>"

definition initial_app_state :: app_state where
  "initial_app_state = \<lparr>courses = JArray [], loading = True, error = None\<rparr>"

definition initial_detail_state :: detail_state where
  "initial_detail_state =
     \<lparr>courses = JArray [], loading = True, error = None, selectedCourse = None,
      showModal = False\<rparr>"

section \<open>The fetch: \<^verbatim>\<open>useEffect\<close> and \<^verbatim>\<open>fetchCourses\<close>\<close>

text \<open>
  \<^verbatim>\<open>await axios.get(...)\<close> either yields a response, with its \<^verbatim>\<open>data\<close>, or throws
  (on a transport error and on a status outside 200-299). The thrown value is the library's
  error object; the \<^verbatim>\<open>catch\<close> clause binds it as \<^verbatim>\<open>err\<close>. An outcome is what the
  \<^verbatim>\<open>await\<close> delivers.
\<close>

datatype axios_error = AxiosError (err_message: string) (err_code: string) (err_status: "nat option")

datatype outcome = Resolved js_value | Rejected axios_error

text \<open>
  \<^verbatim>\<open>fetchCourses\<close> is an async function, so its control state is part of the state of a
  mounted component: not started (the effect has not run yet), suspended at the
  \<^verbatim>\<open>await\<close>, between the two setter calls of the \<^verbatim>\<open>try\<close> block or of the
  \<^verbatim>\<open>catch\<close> block, or returned. Each setter call is a step of its own, so that the
  state a renderer sees between two calls that it does not batch is a state of the model.
  \<open>requests\<close> counts the calls of \<^verbatim>\<open>axios.get\<close>.
\<close>

datatype fetch_pc = NotStarted | AwaitingGet | TryAfterSetCourses | CatchAfterSetError | Returned

record 's component =
  hooks :: 's
  pc :: fetch_pc
  requests :: nat

datatype fetch_event = RunEffect | Settle outcome | Resume

fun fetch_enabled :: "fetch_event \<Rightarrow> 's component \<Rightarrow> bool" where
  "fetch_enabled RunEffect c = (pc c = NotStarted)"
| "fetch_enabled (Settle r) c = (pc c = AwaitingGet)"
| "fetch_enabled Resume c = (pc c = TryAfterSetCourses \<or> pc c = CatchAfterSetError)"

fun fetch_step ::
  "fetch_event \<Rightarrow> ('a app_state_scheme) component \<Rightarrow> ('a app_state_scheme) component" where
  "fetch_step RunEffect c = c\<lparr>pc := AwaitingGet, requests := Suc (requests c)\<rparr>"
| "fetch_step (Settle (Resolved d)) c =
     c\<lparr>hooks := setCourses d (hooks c), pc := TryAfterSetCourses\<rparr>"
| "fetch_step (Settle (Rejected err)) c =
     c\<lparr>hooks := setError ''Failed to fetch courses'' (hooks c), pc := CatchAfterSetError\<rparr>"
| "fetch_step Resume c = c\<lparr>hooks := setLoading False (hooks c), pc := Returned\<rparr>"

text \<open>The body of \<^verbatim>\<open>fetchCourses\<close> after the \<^verbatim>\<open>await\<close>, run to its end.\<close>

definition fetchCourses ::
  "outcome \<Rightarrow> ('a app_state_scheme) component \<Rightarrow> ('a app_state_scheme) component" where
  "fetchCourses r c = fetch_step Resume (fetch_step (Settle r) c)"

section \<open>JavaScript numbers\<close>

text \<open>
  The rating bar is computed with the binary64 arithmetic of JavaScript: every operation
  rounds its exact result to the nearest binary64 value, ties to the even significand.
  \<open>to_double\<close> is that rounding, on the rational denoted. With \<open>e\<close> the exponent of
  \<open>x\<close>, but at least -1022 (below it the spacing stays at \<open>2 ^ -1074\<close>), the
  significand \<open>m\<close> is \<open>x / 2 ^ (e - 52)\<close> rounded to an integer of at most 53 bits;
  rounding up to \<open>2 ^ 53\<close> moves the result to the next exponent; a result whose
  exponent exceeds 1023 is an infinity. The two zeros are not told apart (a template
  literal prints both as \<^verbatim>\<open>0\<close>).
\<close>

datatype number = Finite rat | PosInfinity | NegInfinity

definition pow2 :: "int \<Rightarrow> rat" where
  "pow2 e = (if 0 \<le> e then 2 ^ nat e else 1 / 2 ^ nat (- e))"

text \<open>\<open>ilog2 x\<close> is the exponent \<open>k\<close> with \<open>2 ^ k \<le> x < 2 ^ (k + 1)\<close>, for \<open>0 < x\<close>.\<close>

definition ilog2 :: "rat \<Rightarrow> int" where
  "ilog2 x = (let (p, q) = quotient_of x; k = bitlen p - bitlen q
              in if pow2 k \<le> x then k else k - 1)"

definition round_half_even :: "rat \<Rightarrow> int" where
  "round_half_even y =
     (let f = \<lfloor>y\<rfloor>; d = y - of_int f
      in if d < 1 / 2 then f else if 1 / 2 < d then f + 1 else if even f then f else f + 1)"

definition to_double :: "rat \<Rightarrow> number" where
  "to_double x =
     (if x = 0 then Finite 0
      else let e = max (ilog2 \<bar>x\<bar>) (- 1022);
               m = round_half_even (\<bar>x\<bar> / pow2 (e - 52))
           in if 1023 < (if m = 2 ^ 53 then e + 1 else e)
              then (if 0 < x then PosInfinity else NegInfinity)
              else Finite (sgn x * of_int m * pow2 (e - 52)))"

text \<open>
  \<^verbatim>\<open>(selectedCourse.difficulty_rating / 5) * 100\<close> (part_000, line 76): the division
  rounds, then the multiplication rounds.
\<close>

definition rating_width :: "rat \<Rightarrow> number" where
  "rating_width r =
     (case to_double (r / 5) of
        Finite q \<Rightarrow> to_double (q * 100)
      | PosInfinity \<Rightarrow> PosInfinity
      | NegInfinity \<Rightarrow> NegInfinity)"

section \<open>Rendering\<close>

text \<open>
  What a component returns. Static markup (header, headings, class names) is left out;
  a card and an overlay keep every value the markup interpolates. \<open>view_more\<close> says
  whether the card has the \<^verbatim>\<open>View Details\<close> button, which only part_000 renders.
\<close>

record card =
  key :: int
  card_name :: string
  card_location :: string
  card_rating :: rat
  card_price :: string
  card_description :: string
  view_more :: bool

record overlay =
  modal_name :: string
  modal_location :: string
  modal_rating :: rat
  rating_bar_width :: number
  modal_price :: string
  modal_description :: string

datatype view =
    LoadingView
  | ErrorView string
  | CollectionView "card list" "overlay option"

text \<open>
  \<^verbatim>\<open>if (error)\<close> tests the truthiness of \<^verbatim>\<open>error\<close>: \<^verbatim>\<open>null\<close> and the empty string
  are falsy, every other string is truthy.
\<close>

fun truthy :: "string option \<Rightarrow> bool" where
  "truthy None = False"
| "truthy (Some m) = (m \<noteq> [])"

definition course_card :: "bool \<Rightarrow> course \<Rightarrow> card" where
  "course_card b c =
     \<lparr>key = id_course c, card_name = name c, card_location = location c,
      card_rating = difficulty_rating c, card_price = price_range c,
      card_description = description c, view_more = b\<rparr>"

text \<open>
  A component returns a view or throws. The exception is a TypeError; it is kept with the
  name of the variable whose property could not be read or called.

  \<^verbatim>\<open>courses.map(course => ...)\<close>: on \<^verbatim>\<open>null\<close> the read of \<^verbatim>\<open>map\<close> throws; on any
  other value that is not an array \<^verbatim>\<open>courses.map\<close> is not a function and the call throws;
  on an array the callback runs on the elements in order, and on a \<^verbatim>\<open>null\<close> element its
  first read of a property of \<^verbatim>\<open>course\<close> throws. None of this is inside a \<^verbatim>\<open>try\<close>:
  the component function runs when the view is rendered, after the setter calls of
  \<^verbatim>\<open>fetchCourses\<close> have returned.
\<close>

datatype js_exception = TypeError string

fun course_cards :: "bool \<Rightarrow> course option list \<Rightarrow> js_exception + card list" where
  "course_cards b [] = Inr []"
| "course_cards b (None # xs) = Inl (TypeError ''course'')"
| "course_cards b (Some c # xs) =
     (case course_cards b xs of
        Inl x \<Rightarrow> Inl x
      | Inr cards \<Rightarrow> Inr (course_card b c # cards))"

fun courses_map :: "bool \<Rightarrow> js_value \<Rightarrow> js_exception + card list" where
  "courses_map b (JArray xs) = course_cards b xs"
| "courses_map b v = Inl (TypeError ''courses'')"

text \<open>\<^verbatim>\<open>App\<close> of \<^verbatim>\<open>src/frontend/src/App.jsx\<close>, lines 25-54.\<close>

definition App :: "'a app_state_scheme \<Rightarrow> js_exception + view" where
  "App s =
     (if loading s then Inr LoadingView
      else if truthy (error s) then Inr (ErrorView (''Error: '' @ the (error s)))
      else case courses_map False (courses s) of
             Inl x \<Rightarrow> Inl x
           | Inr cards \<Rightarrow> Inr (CollectionView cards None))"

text \<open>
  \<^verbatim>\<open>App\<close> of part_000, lines 27-93. The markup of the overlay reads six properties of
  \<^verbatim>\<open>selectedCourse\<close>, so on \<^verbatim>\<open>null\<close> it throws.
  \<^verbatim>\<open>showModal && selectedCourse && (...)\<close> evaluates the markup only when both operands
  before it are truthy (an object is truthy, \<^verbatim>\<open>null\<close> is not); otherwise the expression
  is \<^verbatim>\<open>false\<close> or \<^verbatim>\<open>null\<close>, which renders nothing. The cards come before the overlay
  in the markup and are evaluated first.
\<close>

fun modal_markup :: "course option \<Rightarrow> js_exception + overlay" where
  "modal_markup None = Inl (TypeError ''selectedCourse'')"
| "modal_markup (Some c) =
     Inr \<lparr>modal_name = name c, modal_location = location c,
          modal_rating = difficulty_rating c,
          rating_bar_width = rating_width (difficulty_rating c),
          modal_price = price_range c, modal_description = description c\<rparr>"

definition App_detail :: "detail_state \<Rightarrow> js_exception + view" where
  "App_detail s =
     (if loading s then Inr LoadingView
      else if truthy (error s) then Inr (ErrorView (''Error: '' @ the (error s)))
      else case courses_map True (courses s) of
             Inl x \<Rightarrow> Inl x
           | Inr cards \<Rightarrow>
               if showModal s \<and> selectedCourse s \<noteq> None then
                 (case modal_markup (selectedCourse s) of
                    Inl x \<Rightarrow> Inl x
                  | Inr m \<Rightarrow> Inr (CollectionView cards (Some m)))
               else Inr (CollectionView cards None))"

section \<open>Click events of the detail variant\<close>

text \<open>
  The four \<^verbatim>\<open>onClick\<close> handlers of part_000: of a card (lines 45-48, closed over the
  element \<^verbatim>\<open>course\<close> of that card), of the overlay backdrop (line 65), of the overlay content
  (line 66) and of the close button (line 67). Only the handler of the content calls
  \<^verbatim>\<open>e.stopPropagation()\<close>.
\<close>

datatype handler = CardOnClick "course option" | OverlayOnClick | ContentOnClick | CloseOnClick

fun handle :: "handler \<Rightarrow> detail_state \<Rightarrow> detail_state" where
  "handle (CardOnClick x) s = setShowModal True (setSelectedCourse x s)"
| "handle OverlayOnClick s = setShowModal False s"
| "handle ContentOnClick s = s"
| "handle CloseOnClick s = setShowModal False s"

fun stopsPropagation :: "handler \<Rightarrow> bool" where
  "stopsPropagation ContentOnClick = True"
| "stopsPropagation h = False"

text \<open>
  The element a click lands on: the i-th card (or an element inside it), the backdrop
  outside the content, an element of the content other than the close button, or the
  close button. A click bubbles from its target to the root, through the handlers of the
  ancestors in that order: the close button lies inside the content, the content inside
  the backdrop element.
\<close>

datatype target = Card nat | Backdrop | Content | CloseButton

fun bubble_path :: "detail_state \<Rightarrow> target \<Rightarrow> handler list" where
  "bubble_path s (Card i) =
     (if i < length (elements (courses s)) then [CardOnClick (elements (courses s) ! i)] else [])"
| "bubble_path s Backdrop = [OverlayOnClick]"
| "bubble_path s Content = [ContentOnClick, OverlayOnClick]"
| "bubble_path s CloseButton = [CloseOnClick, ContentOnClick, OverlayOnClick]"

text \<open>The handlers that run: the path up to the first one that stops the propagation.\<close>

fun invoked :: "handler list \<Rightarrow> handler list" where
  "invoked [] = []"
| "invoked (h # hs) = (if stopsPropagation h then [h] else h # invoked hs)"

fun dispatch :: "handler list \<Rightarrow> detail_state \<Rightarrow> detail_state" where
  "dispatch [] s = s"
| "dispatch (h # hs) s = dispatch hs (handle h s)"

definition click :: "target \<Rightarrow> detail_state \<Rightarrow> detail_state" where
  "click t s = dispatch (invoked (bubble_path s t)) s"

text \<open>A target can be clicked only if the current output contains it.\<close>

fun rendered :: "js_exception + view \<Rightarrow> target \<Rightarrow> bool" where
  "rendered (Inr (CollectionView cards ov)) (Card i) = (i < length cards)"
| "rendered (Inr (CollectionView cards ov)) t = (ov \<noteq> None)"
| "rendered v t = False"

section \<open>The mounted components\<close>

definition mount_app :: "app_state component" where
  "mount_app = \<lparr>hooks = initial_app_state, pc = NotStarted, requests = 0\<rparr>"

definition mount_detail :: "detail_state component" where
  "mount_detail = \<lparr>hooks = initial_detail_state, pc = NotStarted, requests = 0\<rparr>"

text \<open>\<^verbatim>\<open>App.jsx\<close> has no event handler: its only events are those of the fetch.\<close>

inductive reachable_app :: "app_state component \<Rightarrow> bool" where
  mounted: "reachable_app mount_app"
| fetch: "reachable_app c \<Longrightarrow> fetch_enabled e c \<Longrightarrow> reachable_app (fetch_step e c)"

datatype event = Fetch fetch_event | Click target

fun enabled :: "event \<Rightarrow> detail_state component \<Rightarrow> bool" where
  "enabled (Fetch e) c = fetch_enabled e c"
| "enabled (Click t) c = rendered (App_detail (hooks c)) t"

fun step :: "event \<Rightarrow> detail_state component \<Rightarrow> detail_state component" where
  "step (Fetch e) c = fetch_step e c"
| "step (Click t) c = c\<lparr>hooks := click t (hooks c)\<rparr>"

inductive reachable :: "detail_state component \<Rightarrow> bool" where
  mounted: "reachable mount_detail"
| event: "reachable c \<Longrightarrow> enabled e c \<Longrightarrow> reachable (step e c)"

text \<open>Running a list of events, each of which must be possible where it happens.\<close>

fun exec :: "event list \<Rightarrow> detail_state component \<Rightarrow> detail_state component option" where
  "exec [] c = Some c"
| "exec (e # es) c = (if enabled e c then exec es (step e c) else None)"

fun exec_app :: "fetch_event list \<Rightarrow> app_state component \<Rightarrow> app_state component option" where
  "exec_app [] c = Some c"
| "exec_app (e # es) c = (if fetch_enabled e c then exec_app es (fetch_step e c) else None)"

section \<open>The lifecycle of the fetch, as the specification names it\<close>

text \<open>
  The specification speaks of one value \<open>Pending\<close>, \<open>Ready collection\<close> or
  \<open>Failed message\<close>. The components hold three hooks instead; this reads the value off
  them, in the order in which the components test them. \<open>Ready\<close> carries whatever
  the hook \<^verbatim>\<open>courses\<close> holds.
\<close>

datatype fetch_state = Pending | Ready js_value | Failed string

definition FetchState :: "'a app_state_scheme \<Rightarrow> fetch_state" where
  "FetchState s =
     (if loading s then Pending
      else if truthy (error s) then Failed (the (error s))
      else Ready (courses s))"

text \<open>
  The specification expects a body decodable as an ordered collection of course records,
  and counts an undecodable body among the failures, with the transport errors and the
  statuses that are not a success. In the terms of what the \<^verbatim>\<open>await\<close> delivers: a
  collection is an array without a \<^verbatim>\<open>null\<close> element, and a failing outcome is a
  rejection or a response whose data is not a collection.
\<close>

fun collection :: "js_value \<Rightarrow> bool" where
  "collection (JArray xs) = (None \<notin> set xs)"
| "collection v = False"

fun failing_outcome :: "outcome \<Rightarrow> bool" where
  "failing_outcome (Rejected e) = True"
| "failing_outcome (Resolved v) = (\<not> collection v)"

text \<open>What \<^verbatim>\<open>courses.map(...)\<close> throws on a value that is not a collection.\<close>

fun map_error :: "js_value \<Rightarrow> js_exception" where
  "map_error (JArray xs) = TypeError ''course''"
| "map_error v = TypeError ''courses''"

text \<open>The record of the specification's scenario A, for concrete runs.\<close>

definition pine_hills :: course where
  "pine_hills =
     \<lparr>id_course = 1, name = ''Pine Hills'', location = ''Austin'', difficulty_rating = 3,
      price_range = ''$$'', description = ''...''\<rparr>"

section \<open>Reading an output\<close>

text \<open>
  Which of the three views an output is, and what a collection view holds. An output that
  is an exception is none of the three.
\<close>

fun loading_view :: "js_exception + view \<Rightarrow> bool" where
  "loading_view (Inr LoadingView) = True"
| "loading_view v = False"

fun error_view :: "js_exception + view \<Rightarrow> bool" where
  "error_view (Inr (ErrorView m)) = True"
| "error_view v = False"

fun collection_view :: "js_exception + view \<Rightarrow> bool" where
  "collection_view (Inr (CollectionView cards ov)) = True"
| "collection_view v = False"

definition views_shown :: "js_exception + view \<Rightarrow> nat" where
  "views_shown v = length (filter (\<lambda>p. p v) [loading_view, error_view, collection_view])"

fun cards_of :: "js_exception + view \<Rightarrow> card list" where
  "cards_of (Inr (CollectionView cards ov)) = cards"
| "cards_of v = []"

fun overlay_of :: "js_exception + view \<Rightarrow> overlay option" where
  "overlay_of (Inr (CollectionView cards ov)) = ov"
| "overlay_of v = None"

section \<open>Invariants\<close>

text \<open>
  What the hooks hold at each point of \<^verbatim>\<open>fetchCourses\<close>, and how often
  \<^verbatim>\<open>axios.get\<close> has been called by then.
\<close>

definition fetch_inv :: "('a app_state_scheme) component \<Rightarrow> bool" where
  "fetch_inv c =
     (case pc c of
        NotStarted \<Rightarrow>
          loading (hooks c) \<and> error (hooks c) = None \<and> courses (hooks c) = JArray [] \<and>
          requests c = 0
      | AwaitingGet \<Rightarrow>
          loading (hooks c) \<and> error (hooks c) = None \<and> courses (hooks c) = JArray [] \<and>
          requests c = 1
      | TryAfterSetCourses \<Rightarrow> loading (hooks c) \<and> error (hooks c) = None \<and> requests c = 1
      | CatchAfterSetError \<Rightarrow>
          loading (hooks c) \<and> error (hooks c) = Some ''Failed to fetch courses'' \<and>
          courses (hooks c) = JArray [] \<and> requests c = 1
      | Returned \<Rightarrow>
          \<not> loading (hooks c) \<and> requests c = 1 \<and>
          (error (hooks c) = None \<or>
           error (hooks c) = Some ''Failed to fetch courses'' \<and>
           courses (hooks c) = JArray []))"

text \<open>The overlay is never flagged visible without a selected course.\<close>

definition sel_inv :: "detail_state \<Rightarrow> bool" where
  "sel_inv s = (showModal s \<longrightarrow> selectedCourse s \<noteq> None)"

text \<open>
  The selection is untouched until \<^verbatim>\<open>fetchCourses\<close> has returned: no card is
  rendered before.
\<close>

definition sel_initial :: "detail_state component \<Rightarrow> bool" where
  "sel_initial c =
     (pc c \<noteq> Returned \<longrightarrow> selectedCourse (hooks c) = None \<and> \<not> showModal (hooks c))"

section \<open>Concrete runs\<close>

text \<open>
  States of the two components along concrete runs: the effect has run and the request is
  in flight; the response has arrived and \<^verbatim>\<open>setCourses\<close> has been called; the
  collection is shown; a card has been clicked; the overlay has been dismissed by a click
  on the backdrop. Two runs in which the response is not a collection: an array with a
  \<^verbatim>\<open>null\<close> element, and a body that is not JSON and arrives as a string. The last state
  is one no run reaches: the overlay flagged visible with nothing selected.
\<close>

definition cedar_links :: course where
  "cedar_links =
     \<lparr>id_course = 2, name = ''Cedar Links'', location = ''Dallas'', difficulty_rating = 5,
      price_range = ''$$$'', description = ''...''\<rparr>"

definition awaiting_app :: "app_state component" where
  "awaiting_app = fetch_step RunEffect mount_app"

definition awaiting_detail :: "detail_state component" where
  "awaiting_detail = fetch_step RunEffect mount_detail"

definition settled_pine :: "detail_state component" where
  "settled_pine = fetch_step (Settle (Resolved (JArray [Some pine_hills]))) awaiting_detail"

definition ready_pine :: "detail_state component" where
  "ready_pine = fetchCourses (Resolved (JArray [Some pine_hills])) awaiting_detail"

definition opened_pine :: "detail_state component" where
  "opened_pine = step (Click (Card 0)) ready_pine"

definition dismissed_pine :: "detail_state component" where
  "dismissed_pine = step (Click Backdrop) opened_pine"

definition null_element_app :: "app_state component" where
  "null_element_app = fetchCourses (Resolved (JArray [Some pine_hills, None])) awaiting_app"

definition null_element_detail :: "detail_state component" where
  "null_element_detail = fetchCourses (Resolved (JArray [Some pine_hills, None])) awaiting_detail"

definition html_body :: outcome where
  "html_body = Resolved (JString ''<html>Bad Gateway</html>'')"

definition visible_unselected :: detail_state where
  "visible_unselected =
     \<lparr>courses = JArray [Some pine_hills], loading = False, error = None,
      selectedCourse = None, showModal = True\<rparr>"

section \<open>Lemmas\<close>

lemma fetch_inv_step:
  "fetch_inv c \<Longrightarrow> fetch_enabled e c \<Longrightarrow> fetch_inv (fetch_step e c)"
proof (cases e)
  case RunEffect
  assume "fetch_inv c" "fetch_enabled e c"
  with RunEffect show ?thesis by (simp add: fetch_inv_def)
next
  case (Settle r)
  assume "fetch_inv c" "fetch_enabled e c"
  with Settle show ?thesis
    by (cases r) (simp_all add: fetch_inv_def setCourses_def setError_def)
next
  case Resume
  assume "fetch_inv c" "fetch_enabled e c"
  with Resume show ?thesis
    by (auto simp add: fetch_inv_def setLoading_def)
qed

lemma fetch_inv_mount_app: "fetch_inv mount_app"
  by (simp add: fetch_inv_def mount_app_def initial_app_state_def)

lemma fetch_inv_mount_detail: "fetch_inv mount_detail"
  by (simp add: fetch_inv_def mount_detail_def initial_detail_state_def)

lemma reachable_app_inv: "reachable_app a \<Longrightarrow> fetch_inv a"
  by (induction rule: reachable_app.induct) (simp_all add: fetch_inv_mount_app fetch_inv_step)

lemma handle_fetch_fields:
  "courses (handle h s) = courses s \<and> loading (handle h s) = loading s \<and> error (handle h s) = error s"
  by (cases h) (simp_all add: setShowModal_def setSelectedCourse_def)

lemma dispatch_fetch_fields:
  "courses (dispatch hs s) = courses s \<and> loading (dispatch hs s) = loading s \<and>
   error (dispatch hs s) = error s"
  by (induction hs arbitrary: s) (simp_all add: handle_fetch_fields)

lemma click_fetch_fields:
  "courses (click t s) = courses s \<and> loading (click t s) = loading s \<and> error (click t s) = error s"
  by (simp add: click_def dispatch_fetch_fields)

lemma fetch_inv_click: "fetch_inv c \<Longrightarrow> fetch_inv (c\<lparr>hooks := click t (hooks c)\<rparr>)"
  by (simp add: fetch_inv_def click_fetch_fields split: fetch_pc.splits)

lemma reachable_inv: "reachable c \<Longrightarrow> fetch_inv c"
proof (induction rule: reachable.induct)
  case mounted
  show ?case by (rule fetch_inv_mount_detail)
next
  case (event c e)
  then show ?case by (cases e) (simp_all add: fetch_inv_step fetch_inv_click)
qed

text \<open>What the components return, in closed form.\<close>

lemma course_cards_eq:
  "course_cards b xs =
     (if None \<in> set xs then Inl (TypeError ''course'') else Inr (map (course_card b \<circ> the) xs))"
proof (induction xs)
  case Nil
  show ?case by simp
next
  case (Cons x xs)
  then show ?case by (cases x) simp_all
qed

lemma courses_map_eq:
  "courses_map b v =
     (if collection v then Inr (map (course_card b \<circ> the) (elements v)) else Inl (map_error v))"
  by (cases v) (simp_all add: course_cards_eq)

lemma collection_elements: "collection v \<Longrightarrow> None \<notin> set (elements v)"
  by (cases v) simp_all

lemma collection_records: "collection (JArray (map Some d))"
  by auto

lemma cards_of_records: "map (course_card b \<circ> the) (map Some d) = map (course_card b) d"
  by simp

lemma App_cases:
  "App s =
     (if loading s then Inr LoadingView
      else if truthy (error s) then Inr (ErrorView (''Error: '' @ the (error s)))
      else if collection (courses s) then
        Inr (CollectionView (map (course_card False \<circ> the) (elements (courses s))) None)
      else Inl (map_error (courses s)))"
  by (simp add: App_def courses_map_eq)

lemma App_detail_cases:
  "App_detail s =
     (if loading s then Inr LoadingView
      else if truthy (error s) then Inr (ErrorView (''Error: '' @ the (error s)))
      else if collection (courses s) then
        Inr (CollectionView (map (course_card True \<circ> the) (elements (courses s)))
             (if showModal s \<and> selectedCourse s \<noteq> None
              then Some \<lparr>modal_name = name (the (selectedCourse s)),
                         modal_location = location (the (selectedCourse s)),
                         modal_rating = difficulty_rating (the (selectedCourse s)),
                         rating_bar_width = rating_width (difficulty_rating (the (selectedCourse s))),
                         modal_price = price_range (the (selectedCourse s)),
                         modal_description = description (the (selectedCourse s))\<rparr>
              else None))
      else Inl (map_error (courses s)))"
  by (cases "selectedCourse s") (simp_all add: App_detail_def courses_map_eq)

lemma views_shown_Inr: "views_shown (Inr v) = 1"
  by (cases v) (simp_all add: views_shown_def)

lemma views_shown_Inl: "views_shown (Inl x) = 0"
  by (simp add: views_shown_def)

lemma rendered_not_loading:
  "rendered (App_detail s) t \<Longrightarrow> \<not> loading s \<and> \<not> truthy (error s) \<and> collection (courses s)"
  by (cases t) (auto simp add: App_detail_cases split: if_splits)

lemma rendered_card_index:
  "rendered (App_detail s) (Card i) \<Longrightarrow>
     i < length (elements (courses s)) \<and> elements (courses s) ! i \<noteq> None"
proof -
  assume r: "rendered (App_detail s) (Card i)"
  then have c: "collection (courses s)" by (rule rendered_not_loading [THEN conjunct2, THEN conjunct2])
  from r have i: "i < length (elements (courses s))"
    by (auto simp add: App_detail_cases split: if_splits)
  then have "elements (courses s) ! i \<in> set (elements (courses s))" by simp
  with collection_elements [OF c] have "elements (courses s) ! i \<noteq> None" by metis
  with i show ?thesis by simp
qed

text \<open>The selection.\<close>

lemma sel_inv_click: "sel_inv s \<Longrightarrow> rendered (App_detail s) t \<Longrightarrow> sel_inv (click t s)"
proof (cases t)
  case (Card i)
  assume "rendered (App_detail s) t"
  with Card have "i < length (elements (courses s)) \<and> elements (courses s) ! i \<noteq> None"
    using rendered_card_index [of s i] by simp
  with Card show ?thesis
    by (simp add: click_def sel_inv_def setShowModal_def setSelectedCourse_def)
qed (simp_all add: click_def sel_inv_def setShowModal_def)

lemma sel_inv_fetch_step: "sel_inv (hooks c) \<Longrightarrow> sel_inv (hooks (fetch_step e c))"
proof (cases e)
  case (Settle r)
  assume "sel_inv (hooks c)"
  with Settle show ?thesis
    by (cases r) (simp_all add: sel_inv_def setCourses_def setError_def)
qed (simp_all add: sel_inv_def setLoading_def)

lemma reachable_sel_inv: "reachable c \<Longrightarrow> sel_inv (hooks c)"
proof (induction rule: reachable.induct)
  case mounted
  show ?case by (simp add: sel_inv_def mount_detail_def initial_detail_state_def)
next
  case (event c e)
  then show ?case by (cases e) (simp_all add: sel_inv_fetch_step sel_inv_click)
qed

lemma click_enabled_returned: "fetch_inv c \<Longrightarrow> enabled (Click t) c \<Longrightarrow> pc c = Returned"
  using rendered_not_loading [of "hooks c" t]
  by (auto simp add: fetch_inv_def split: fetch_pc.splits)

lemma fetch_step_selection:
  "selectedCourse (hooks (fetch_step e c)) = selectedCourse (hooks c) \<and>
   showModal (hooks (fetch_step e c)) = showModal (hooks c)"
proof (cases e)
  case (Settle r)
  then show ?thesis by (cases r) (simp_all add: setCourses_def setError_def)
qed (simp_all add: setLoading_def)

lemma fetch_step_pc_returned:
  "fetch_enabled e c \<Longrightarrow> pc (fetch_step e c) \<noteq> Returned \<Longrightarrow> pc c \<noteq> Returned"
  by (cases e) auto

lemma reachable_sel_initial: "reachable c \<Longrightarrow> sel_initial c"
proof (induction rule: reachable.induct)
  case mounted
  show ?case by (simp add: sel_initial_def mount_detail_def initial_detail_state_def)
next
  case (event c e)
  show ?case
  proof (cases e)
    case (Fetch fe)
    with event show ?thesis
      using fetch_step_pc_returned [of fe c]
      by (auto simp add: sel_initial_def fetch_step_selection)
  next
    case (Click t)
    with event have "pc c = Returned"
      using click_enabled_returned [of c t] reachable_inv [of c] by simp
    with Click show ?thesis by (simp add: sel_initial_def)
  qed
qed

text \<open>The fetch.\<close>

lemma fetchCourses_rejected:
  "fetchCourses (Rejected e) c =
     c\<lparr>hooks := setLoading False (setError ''Failed to fetch courses'' (hooks c)), pc := Returned\<rparr>"
  by (simp add: fetchCourses_def)

lemma fetchCourses_resolved:
  "fetchCourses (Resolved d) c =
     c\<lparr>hooks := setLoading False (setCourses d (hooks c)), pc := Returned\<rparr>"
  by (simp add: fetchCourses_def)

lemma FetchState_Pending: "(FetchState s = Pending) = loading s"
  by (simp add: FetchState_def)

lemma fetch_inv_returned: "fetch_inv c \<Longrightarrow> \<not> loading (hooks c) \<Longrightarrow> pc c = Returned"
  by (auto simp add: fetch_inv_def split: fetch_pc.splits)

lemma fetch_inv_loading: "fetch_inv c \<Longrightarrow> pc c \<noteq> Returned \<Longrightarrow> loading (hooks c)"
  by (auto simp add: fetch_inv_def split: fetch_pc.splits)

lemma fetch_disabled_returned: "pc c = Returned \<Longrightarrow> \<not> fetch_enabled e c"
  by (cases e) simp_all

lemma exec_app_settled:
  "fetch_inv a \<Longrightarrow> \<not> loading (hooks a) \<Longrightarrow> exec_app fs a = Some a' \<Longrightarrow> a' = a"
  using fetch_disabled_returned [of a] fetch_inv_returned [of a]
  by (cases fs) (auto split: if_splits)

lemma step_settled:
  assumes "fetch_inv c" and "\<not> loading (hooks c)" and "enabled e c"
  shows "courses (hooks (step e c)) = courses (hooks c) \<and>
         loading (hooks (step e c)) = loading (hooks c) \<and>
         error (hooks (step e c)) = error (hooks c) \<and>
         pc (step e c) = pc c \<and> requests (step e c) = requests c"
proof (cases e)
  case (Fetch fe)
  with assms show ?thesis
    using fetch_disabled_returned [of c fe] fetch_inv_returned [of c] by simp
next
  case (Click t)
  then show ?thesis by (simp add: click_fetch_fields)
qed

lemma exec_settled:
  "reachable c \<Longrightarrow> \<not> loading (hooks c) \<Longrightarrow> exec es c = Some c' \<Longrightarrow>
     courses (hooks c') = courses (hooks c) \<and> loading (hooks c') = loading (hooks c) \<and>
     error (hooks c') = error (hooks c) \<and> pc c' = pc c \<and> requests c' = requests c"
proof (induction es arbitrary: c)
  case Nil
  then show ?case by simp
next
  case (Cons e es)
  from Cons.prems have en: "enabled e c" and ex: "exec es (step e c) = Some c'"
    by (auto split: if_splits)
  from Cons.prems en have st:
    "courses (hooks (step e c)) = courses (hooks c) \<and>
     loading (hooks (step e c)) = loading (hooks c) \<and>
     error (hooks (step e c)) = error (hooks c) \<and>
     pc (step e c) = pc c \<and> requests (step e c) = requests c"
    using step_settled [of c e] reachable_inv [of c] by blast
  have r: "reachable (step e c)" using Cons.prems(1) en by (rule reachable.event)
  from st Cons.prems have l: "\<not> loading (hooks (step e c))" by simp
  from Cons.IH [OF r l ex] st show ?case by simp
qed

lemma fetch_step_leaves_pending:
  assumes "fetch_inv c" and "fetch_enabled e c" and "loading (hooks c)"
    and "\<not> loading (hooks (fetch_step e c))"
  shows "e = Resume \<and>
         (FetchState (hooks (fetch_step e c)) = Ready (courses (hooks c)) \<or>
          FetchState (hooks (fetch_step e c)) = Failed ''Failed to fetch courses'')"
proof (cases e)
  case RunEffect
  with assms show ?thesis by simp
next
  case (Settle r)
  with assms show ?thesis by (cases r) (simp_all add: setCourses_def setError_def)
next
  case Resume
  with assms show ?thesis
    by (auto simp add: fetch_inv_def FetchState_def setLoading_def)
qed

lemma fetchCourses_settles:
  "fetch_inv c \<Longrightarrow> pc c = AwaitingGet \<Longrightarrow>
     FetchState (hooks (fetchCourses r c)) =
       (case r of Resolved d \<Rightarrow> Ready d | Rejected e \<Rightarrow> Failed ''Failed to fetch courses'')"
  by (cases r)
    (simp_all add: fetch_inv_def fetchCourses_def FetchState_def setLoading_def setCourses_def
      setError_def)

lemma overlay_rating_bar:
  "selectedCourse s = Some c \<Longrightarrow> overlay_of (App_detail s) = Some m \<Longrightarrow>
     rating_bar_width m = rating_width (difficulty_rating c)"
  by (auto simp add: App_detail_cases split: if_splits)

text \<open>
  The rounding: powers of two, the exponent, the error of one rounding, and the error of
  the rating bar for a rating between 0 and 5.
\<close>

lemma pow2_powi: "pow2 e = 2 powi e"
  by (simp add: pow2_def power_int_def field_simps)

lemma pow2_pos: "0 < pow2 e"
  by (simp add: pow2_powi)

lemma pow2_strict_mono: "a < b \<Longrightarrow> pow2 a < pow2 b"
  by (simp add: pow2_powi power_int_strict_increasing)

lemma pow2_mono: "a \<le> b \<Longrightarrow> pow2 a \<le> pow2 b"
  by (simp add: pow2_powi power_int_increasing)

lemma pow2_diff: "pow2 (a - b) = pow2 a / pow2 b"
  by (simp add: pow2_powi power_int_diff)

lemma pow2_nat: "pow2 (int n) = 2 ^ n"
  by (simp add: pow2_def)

lemma round_half_even_error: "\<bar>of_int (round_half_even t) - t\<bar> \<le> 1 / 2"
proof -
  define f where "f = \<lfloor>t\<rfloor>"
  have lo: "of_int f \<le> t" and hi: "t < of_int f + 1"
    unfolding f_def by linarith+
  consider "t - of_int f < 1 / 2" | "1 / 2 < t - of_int f" | "t - of_int f = 1 / 2"
    by linarith
  then show ?thesis
  proof cases
    case 1
    then have "round_half_even t = f" by (simp add: round_half_even_def Let_def f_def)
    with 1 lo show ?thesis by simp
  next
    case 2
    then have "round_half_even t = f + 1" by (simp add: round_half_even_def Let_def f_def)
    with 2 hi show ?thesis by simp
  next
    case 3
    then have "round_half_even t = f \<or> round_half_even t = f + 1"
      by (simp add: round_half_even_def Let_def f_def)
    with 3 show ?thesis by auto
  qed
qed

lemma round_half_even_nonneg: "0 \<le> t \<Longrightarrow> 0 \<le> round_half_even t"
  by (auto simp add: round_half_even_def Let_def)

lemma ilog2_lower:
  assumes "0 < x"
  shows "pow2 (ilog2 x) \<le> x"
proof -
  obtain p q where pq: "quotient_of x = (p, q)" by (cases "quotient_of x")
  then have q: "0 < q" and x: "x = of_int p / of_int q"
    by (simp_all add: quotient_of_denom_pos quotient_of_div)
  from assms q x have p: "0 < p" by (simp add: zero_less_divide_iff)
  let ?k = "bitlen p - bitlen q"
  show ?thesis
  proof (cases "pow2 ?k \<le> x")
    case True
    with pq show ?thesis by (simp add: ilog2_def)
  next
    case False
    have bp: "2 ^ nat (bitlen p - 1) \<le> p" using bitlen_bounds [OF p] by simp
    have bq: "q < 2 ^ nat (bitlen q)" using bitlen_bounds [OF q] by simp
    have p1: "1 \<le> bitlen p" using p by (simp add: bitlen_alt_def)
    have q0: "0 \<le> bitlen q" by (rule bitlen_nonneg)
    have "(of_int (2 ^ nat (bitlen p - 1)) :: rat) \<le> of_int p" using bp by (simp only: of_int_le_iff)
    then have rp: "pow2 (bitlen p - 1) \<le> of_int p" using p1 by (simp add: pow2_def)
    have "(of_int q :: rat) < of_int (2 ^ nat (bitlen q))" using bq by (simp only: of_int_less_iff)
    then have rq: "of_int q < pow2 (bitlen q)" using q0 by (simp add: pow2_def)
    have "pow2 (?k - 1) = pow2 (bitlen p - 1) / pow2 (bitlen q)"
      using pow2_diff [of "bitlen p - 1" "bitlen q"] by (simp add: algebra_simps)
    also have "\<dots> \<le> of_int p / pow2 (bitlen q)"
      using rp pow2_pos [of "bitlen q"] by (simp add: divide_right_mono)
    also have "\<dots> \<le> of_int p / of_int q"
      using rq q p by (simp add: frac_le)
    finally have "pow2 (?k - 1) \<le> x" using x by simp
    with False pq show ?thesis by (simp add: ilog2_def)
  qed
qed

lemma to_double_error:
  assumes x: "x \<noteq> 0" and b: "\<bar>x\<bar> < pow2 K" and k1: "- 1021 \<le> K" and k2: "K \<le> 1023"
  shows "\<exists>y. to_double x = Finite y \<and> \<bar>y - x\<bar> \<le> pow2 (K - 54) \<and> (0 \<le> x \<longrightarrow> 0 \<le> y)"
proof -
  define e where "e = max (ilog2 \<bar>x\<bar>) (- 1022)"
  define q where "q = pow2 (e - 52)"
  define m where "m = round_half_even (\<bar>x\<bar> / q)"
  have ax: "0 < \<bar>x\<bar>" using x by simp
  have "pow2 (ilog2 \<bar>x\<bar>) < pow2 K" using ilog2_lower [OF ax] b by simp
  then have "ilog2 \<bar>x\<bar> < K"
    using pow2_mono [of K "ilog2 \<bar>x\<bar>"] by (cases "ilog2 \<bar>x\<bar> < K") simp_all
  with k1 have eK: "e \<le> K - 1" by (simp add: e_def)
  with k2 have no: "\<not> 1023 < (if m = 2 ^ 53 then e + 1 else e)" by simp
  have q0: "0 < q" by (simp add: q_def pow2_pos)
  have td: "to_double x = Finite (sgn x * of_int m * q)"
    using x no by (simp add: to_double_def Let_def e_def [symmetric] q_def [symmetric] m_def [symmetric])
  have "\<bar>of_int m - \<bar>x\<bar> / q\<bar> \<le> 1 / 2" unfolding m_def by (rule round_half_even_error)
  then have "\<bar>of_int m - \<bar>x\<bar> / q\<bar> * q \<le> 1 / 2 * q" using q0 by (simp only: mult_le_cancel_right_pos)
  moreover have "\<bar>of_int m - \<bar>x\<bar> / q\<bar> * q = \<bar>of_int m * q - \<bar>x\<bar>\<bar>"
  proof -
    have "\<bar>of_int m - \<bar>x\<bar> / q\<bar> * q = \<bar>(of_int m - \<bar>x\<bar> / q) * q\<bar>"
      using q0 by (simp add: abs_mult)
    also have "(of_int m - \<bar>x\<bar> / q) * q = of_int m * q - \<bar>x\<bar>"
      using q0 by (simp add: left_diff_distrib)
    finally show ?thesis .
  qed
  ultimately have err: "\<bar>of_int m * q - \<bar>x\<bar>\<bar> \<le> q / 2" by simp
  have "q / 2 = pow2 (e - 53)"
    using pow2_diff [of "e - 52" 1] by (simp add: q_def pow2_def)
  also have "\<dots> \<le> pow2 (K - 54)" using eK by (simp add: pow2_mono)
  finally have qK: "q / 2 \<le> pow2 (K - 54)" .
  have "\<bar>sgn x * of_int m * q - x\<bar> = \<bar>of_int m * q - \<bar>x\<bar>\<bar>"
  proof (cases "0 < x")
    case True
    then show ?thesis by simp
  next
    case False
    with x have "x < 0" by simp
    then have "sgn x * of_int m * q - x = - (of_int m * q - \<bar>x\<bar>)" by simp
    then show ?thesis by (simp only: abs_minus_cancel)
  qed
  with err qK have e1: "\<bar>sgn x * of_int m * q - x\<bar> \<le> pow2 (K - 54)" by simp
  have "0 \<le> m" unfolding m_def using q0 by (simp add: round_half_even_nonneg)
  then have e2: "0 \<le> x \<longrightarrow> 0 \<le> sgn x * of_int m * q" using q0 x by (simp add: sgn_if)
  from td e1 e2 show ?thesis by blast
qed

lemma rating_width_0: "rating_width 0 = Finite 0"
  by (simp add: rating_width_def to_double_def)

lemma rating_width_error:
  assumes "0 \<le> r" and "r \<le> 5"
  shows "\<exists>y. rating_width r = Finite y \<and> \<bar>y - r / 5 * 100\<bar> \<le> 1 / 2 ^ 45"
proof (cases "r = 0")
  case True
  then show ?thesis by (simp add: rating_width_0)
next
  case False
  define u :: rat where "u = 1 / 2 ^ 53"
  have u53: "pow2 (- 53) = u" and u47: "pow2 (- 47) = 64 * u" and u45: "1 / 2 ^ 45 = 256 * u"
    and u0: "0 < u" and u1: "u < 1 / 4"
    by (simp_all add: pow2_def u_def)
  from False assms have x1: "r / 5 \<noteq> 0" and b1: "\<bar>r / 5\<bar> < pow2 1" and p1: "0 \<le> r / 5"
    and r1: "r / 5 \<le> 1"
    by (simp_all add: pow2_def)
  from to_double_error [OF x1 b1] p1
  obtain q where q: "to_double (r / 5) = Finite q" and eq: "\<bar>q - r / 5\<bar> \<le> pow2 (- 53)"
    and q0: "0 \<le> q" by auto
  from eq u53 have eq': "\<bar>q - r / 5\<bar> \<le> u" by (simp only:)
  from q have rw: "rating_width r = to_double (q * 100)" by (simp add: rating_width_def)
  show ?thesis
  proof (cases "q = 0")
    case True
    with rw have "rating_width r = Finite 0" by (simp add: to_double_def)
    moreover from True eq' p1 u0 have "\<bar>0 - r / 5 * 100\<bar> \<le> 256 * u" by linarith
    ultimately show ?thesis using u45 by auto
  next
    case False
    then have x2: "q * 100 \<noteq> 0" by simp
    have "pow2 7 = 128" by (simp add: pow2_def)
    with q0 eq' r1 u1 have b2: "\<bar>q * 100\<bar> < pow2 7" by linarith
    from to_double_error [OF x2 b2]
    obtain y where y: "to_double (q * 100) = Finite y" and ey: "\<bar>y - q * 100\<bar> \<le> pow2 (- 47)"
      by auto
    from ey u47 have ey': "\<bar>y - q * 100\<bar> \<le> 64 * u" by (simp only:)
    from ey' eq' u0 have "\<bar>y - r / 5 * 100\<bar> \<le> 256 * u" by linarith
    with rw y u45 show ?thesis by auto
  qed
qed

lemma rating_width_whole:
  "rating_width 1 = Finite 20" "rating_width 2 = Finite 40" "rating_width 3 = Finite 60"
  "rating_width 4 = Finite 80" "rating_width 5 = Finite 100"
  by code_simp+

lemma to_double_tenth: "to_double (1 / 10) = Finite (3602879701896397 / 36028797018963968)"
  by code_simp

lemma exec_reachable: "reachable c \<Longrightarrow> exec es c = Some c' \<Longrightarrow> reachable c'"
  by (induction es arbitrary: c) (auto intro: reachable.event split: if_splits)

lemma reachable_ready_detail:
  "reachable (fetchCourses (Resolved d) (fetch_step RunEffect mount_detail))"
proof -
  have 1: "reachable (step (Fetch RunEffect) mount_detail)"
    by (rule reachable.event [OF reachable.mounted]) (simp add: mount_detail_def)
  have 2: "reachable (step (Fetch (Settle (Resolved d))) (step (Fetch RunEffect) mount_detail))"
    by (rule reachable.event [OF 1]) simp
  have "reachable (step (Fetch Resume) (step (Fetch (Settle (Resolved d))) (step (Fetch RunEffect) mount_detail)))"
    by (rule reachable.event [OF 2]) simp
  then show ?thesis by (simp add: fetchCourses_def)
qed

lemma reachable_ready_app:
  "reachable_app (fetchCourses (Resolved d) (fetch_step RunEffect mount_app))"
proof -
  have 1: "reachable_app (fetch_step RunEffect mount_app)"
    by (rule reachable_app.fetch [OF reachable_app.mounted]) (simp add: mount_app_def)
  have 2: "reachable_app (fetch_step (Settle (Resolved d)) (fetch_step RunEffect mount_app))"
    by (rule reachable_app.fetch [OF 1]) simp
  have "reachable_app (fetch_step Resume (fetch_step (Settle (Resolved d)) (fetch_step RunEffect mount_app)))"
    by (rule reachable_app.fetch [OF 2]) simp
  then show ?thesis by (simp add: fetchCourses_def)
qed

text \<open>The concrete runs: what each state is, and that the run reaches it.\<close>

lemma awaiting_app_eq:
  "awaiting_app =
     \<lparr>hooks = \<lparr>courses = JArray [], loading = True, error = None\<rparr>, pc = AwaitingGet,
      requests = 1\<rparr>"
  by (simp add: awaiting_app_def mount_app_def initial_app_state_def)

lemma awaiting_detail_eq:
  "awaiting_detail =
     \<lparr>hooks = \<lparr>courses = JArray [], loading = True, error = None, selectedCourse = None,
               showModal = False\<rparr>,
      pc = AwaitingGet, requests = 1\<rparr>"
  by (simp add: awaiting_detail_def mount_detail_def initial_detail_state_def)

lemma reachable_awaiting_app: "reachable_app awaiting_app"
  unfolding awaiting_app_def
  by (rule reachable_app.fetch [OF reachable_app.mounted]) (simp add: mount_app_def)

lemma reachable_awaiting_detail: "reachable awaiting_detail"
proof -
  have "reachable (step (Fetch RunEffect) mount_detail)"
    by (rule reachable.event [OF reachable.mounted]) (simp add: mount_detail_def)
  then show ?thesis by (simp add: awaiting_detail_def)
qed

lemma settled_pine_eq:
  "settled_pine =
     \<lparr>hooks = \<lparr>courses = JArray [Some pine_hills], loading = True, error = None,
               selectedCourse = None, showModal = False\<rparr>,
      pc = TryAfterSetCourses, requests = 1\<rparr>"
  by (simp add: settled_pine_def awaiting_detail_eq setCourses_def)

lemma reachable_settled_pine: "reachable settled_pine"
proof -
  have "reachable (step (Fetch (Settle (Resolved (JArray [Some pine_hills])))) awaiting_detail)"
    by (rule reachable.event [OF reachable_awaiting_detail]) (simp add: awaiting_detail_eq)
  then show ?thesis by (simp add: settled_pine_def)
qed

lemma ready_pine_eq:
  "ready_pine =
     \<lparr>hooks = \<lparr>courses = JArray [Some pine_hills], loading = False, error = None,
               selectedCourse = None, showModal = False\<rparr>,
      pc = Returned, requests = 1\<rparr>"
  by (simp add: ready_pine_def awaiting_detail_eq fetchCourses_resolved setLoading_def
      setCourses_def)

lemma reachable_ready_pine: "reachable ready_pine"
  unfolding ready_pine_def awaiting_detail_def by (rule reachable_ready_detail)

lemma enabled_card_ready_pine: "enabled (Click (Card 0)) ready_pine"
  by (simp add: ready_pine_eq App_detail_def)

lemma opened_pine_eq:
  "opened_pine =
     \<lparr>hooks = \<lparr>courses = JArray [Some pine_hills], loading = False, error = None,
               selectedCourse = Some pine_hills, showModal = True\<rparr>,
      pc = Returned, requests = 1\<rparr>"
  by (simp add: opened_pine_def ready_pine_eq click_def setShowModal_def setSelectedCourse_def)

lemma reachable_opened_pine: "reachable opened_pine"
  unfolding opened_pine_def
  by (rule reachable.event [OF reachable_ready_pine enabled_card_ready_pine])

lemma enabled_backdrop_opened_pine: "enabled (Click Backdrop) opened_pine"
  by (simp add: opened_pine_eq App_detail_def)

lemma dismissed_pine_eq:
  "dismissed_pine =
     \<lparr>hooks = \<lparr>courses = JArray [Some pine_hills], loading = False, error = None,
               selectedCourse = Some pine_hills, showModal = False\<rparr>,
      pc = Returned, requests = 1\<rparr>"
  by (simp add: dismissed_pine_def opened_pine_eq click_def setShowModal_def)

lemma reachable_dismissed_pine: "reachable dismissed_pine"
  unfolding dismissed_pine_def
  by (rule reachable.event [OF reachable_opened_pine enabled_backdrop_opened_pine])

lemma exec_ready_dismissed:
  "exec [Click (Card 0), Click Backdrop] ready_pine = Some dismissed_pine"
  using enabled_card_ready_pine enabled_backdrop_opened_pine
  by (simp add: dismissed_pine_def opened_pine_def del: enabled.simps step.simps)

lemma null_element_app_eq:
  "null_element_app =
     \<lparr>hooks = \<lparr>courses = JArray [Some pine_hills, None], loading = False, error = None\<rparr>,
      pc = Returned, requests = 1\<rparr>"
  by (simp add: null_element_app_def awaiting_app_eq fetchCourses_resolved setLoading_def
      setCourses_def)

lemma reachable_null_element_app: "reachable_app null_element_app"
  unfolding null_element_app_def awaiting_app_def by (rule reachable_ready_app)

lemma null_element_detail_eq:
  "null_element_detail =
     \<lparr>hooks = \<lparr>courses = JArray [Some pine_hills, None], loading = False, error = None,
               selectedCourse = None, showModal = False\<rparr>,
      pc = Returned, requests = 1\<rparr>"
  by (simp add: null_element_detail_def awaiting_detail_eq fetchCourses_resolved setLoading_def
      setCourses_def)

lemma reachable_null_element_detail: "reachable null_element_detail"
  unfolding null_element_detail_def awaiting_detail_def by (rule reachable_ready_detail)

lemma html_body_app_eq:
  "fetchCourses html_body awaiting_app =
     \<lparr>hooks = \<lparr>courses = JString ''<html>Bad Gateway</html>'', loading = False, error = None\<rparr>,
      pc = Returned, requests = 1\<rparr>"
  by (simp add: html_body_def awaiting_app_eq fetchCourses_resolved setLoading_def
      setCourses_def)

lemma html_body_detail_eq:
  "fetchCourses html_body awaiting_detail =
     \<lparr>hooks = \<lparr>courses = JString ''<html>Bad Gateway</html>'', loading = False, error = None,
               selectedCourse = None, showModal = False\<rparr>,
      pc = Returned, requests = 1\<rparr>"
  by (simp add: html_body_def awaiting_detail_eq fetchCourses_resolved setLoading_def
      setCourses_def)

section \<open>The claims\<close>

text \<open>
  C1. As stated (exactly one of the three views in every reachable state) the claim fails:
  a response whose data is an array with a \<^verbatim>\<open>null\<close> element is stored like any other,
  and once \<^verbatim>\<open>loading\<close> is false the component throws in \<^verbatim>\<open>courses.map\<close> and
  returns none of the three views.
\<close>

theorem exactly_one_view_counterexample:
  "reachable_app null_element_app \<and>
   App (hooks null_element_app) = Inl (TypeError ''course'') \<and>
   views_shown (App (hooks null_element_app)) = 0 \<and>
   reachable null_element_detail \<and>
   App_detail (hooks null_element_detail) = Inl (TypeError ''course'') \<and>
   views_shown (App_detail (hooks null_element_detail)) = 0"
proof -
  have a: "App (hooks null_element_app) = Inl (TypeError ''course'')"
    by (simp add: null_element_app_eq App_def)
  have c: "App_detail (hooks null_element_detail) = Inl (TypeError ''course'')"
    by (simp add: null_element_detail_eq App_detail_def)
  from a c reachable_null_element_app reachable_null_element_detail show ?thesis
    by (simp add: views_shown_Inl)
qed

text \<open>
  C1, amended. In every reachable state of either component the output is at most one of
  the loading view, the error view and the collection view, and it is exactly one unless
  the fetch has succeeded with data that is not a collection: the loading view as long as
  \<^verbatim>\<open>fetchCourses\<close> has not returned, that is while the fetch is pending; the error view
  with the stored message when it failed; otherwise, when the stored data is an array
  without a \<^verbatim>\<open>null\<close> element, the grid of its records. When the stored data is anything
  else, the component throws the TypeError of \<^verbatim>\<open>courses.map\<close> and returns no view.
\<close>

theorem one_view_unless_not_collection:
  "(reachable_app a \<longrightarrow>
      views_shown (App (hooks a)) \<le> 1 \<and>
      (views_shown (App (hooks a)) = 1 \<longleftrightarrow>
         loading (hooks a) \<or> truthy (error (hooks a)) \<or> collection (courses (hooks a))) \<and>
      (pc a \<noteq> Returned \<longrightarrow> App (hooks a) = Inr LoadingView) \<and>
      (case FetchState (hooks a) of
         Pending \<Rightarrow> App (hooks a) = Inr LoadingView
       | Failed m \<Rightarrow> App (hooks a) = Inr (ErrorView (''Error: '' @ m))
       | Ready d \<Rightarrow>
           (collection d \<longrightarrow>
              App (hooks a) = Inr (CollectionView (map (course_card False \<circ> the) (elements d)) None)) \<and>
           (\<not> collection d \<longrightarrow> App (hooks a) = Inl (map_error d)))) \<and>
   (reachable c \<longrightarrow>
      views_shown (App_detail (hooks c)) \<le> 1 \<and>
      (views_shown (App_detail (hooks c)) = 1 \<longleftrightarrow>
         loading (hooks c) \<or> truthy (error (hooks c)) \<or> collection (courses (hooks c))) \<and>
      (pc c \<noteq> Returned \<longrightarrow> App_detail (hooks c) = Inr LoadingView) \<and>
      (case FetchState (hooks c) of
         Pending \<Rightarrow> App_detail (hooks c) = Inr LoadingView
       | Failed m \<Rightarrow> App_detail (hooks c) = Inr (ErrorView (''Error: '' @ m))
       | Ready d \<Rightarrow>
           (collection d \<longrightarrow>
              collection_view (App_detail (hooks c)) \<and>
              cards_of (App_detail (hooks c)) = map (course_card True \<circ> the) (elements d)) \<and>
           (\<not> collection d \<longrightarrow> App_detail (hooks c) = Inl (map_error d))))"
proof (intro conjI impI)
  show "views_shown (App (hooks a)) \<le> 1"
    by (cases "App (hooks a)") (simp_all add: views_shown_Inl views_shown_Inr)
next
  show "(views_shown (App (hooks a)) = 1) =
        (loading (hooks a) \<or> truthy (error (hooks a)) \<or> collection (courses (hooks a)))"
    by (simp add: App_cases views_shown_Inl views_shown_Inr)
next
  assume "reachable_app a" and "pc a \<noteq> Returned"
  then have "loading (hooks a)"
    using reachable_app_inv [of a] fetch_inv_loading [of a] by simp
  then show "App (hooks a) = Inr LoadingView" by (simp add: App_def)
next
  show "case FetchState (hooks a) of
         Pending \<Rightarrow> App (hooks a) = Inr LoadingView
       | Failed m \<Rightarrow> App (hooks a) = Inr (ErrorView (''Error: '' @ m))
       | Ready d \<Rightarrow>
           (collection d \<longrightarrow>
              App (hooks a) = Inr (CollectionView (map (course_card False \<circ> the) (elements d)) None)) \<and>
           (\<not> collection d \<longrightarrow> App (hooks a) = Inl (map_error d))"
    by (simp add: FetchState_def App_cases)
next
  show "views_shown (App_detail (hooks c)) \<le> 1"
    by (cases "App_detail (hooks c)") (simp_all add: views_shown_Inl views_shown_Inr)
next
  show "(views_shown (App_detail (hooks c)) = 1) =
        (loading (hooks c) \<or> truthy (error (hooks c)) \<or> collection (courses (hooks c)))"
    by (simp add: App_detail_cases views_shown_Inl views_shown_Inr)
next
  assume "reachable c" and "pc c \<noteq> Returned"
  then have "loading (hooks c)"
    using reachable_inv [of c] fetch_inv_loading [of c] by simp
  then show "App_detail (hooks c) = Inr LoadingView" by (simp add: App_detail_def)
next
  show "case FetchState (hooks c) of
         Pending \<Rightarrow> App_detail (hooks c) = Inr LoadingView
       | Failed m \<Rightarrow> App_detail (hooks c) = Inr (ErrorView (''Error: '' @ m))
       | Ready d \<Rightarrow>
           (collection d \<longrightarrow>
              collection_view (App_detail (hooks c)) \<and>
              cards_of (App_detail (hooks c)) = map (course_card True \<circ> the) (elements d)) \<and>
           (\<not> collection d \<longrightarrow> App_detail (hooks c) = Inl (map_error d))"
    by (simp add: FetchState_def App_detail_cases)
qed

theorem one_view_unless_not_collection_witness:
  "reachable_app (fetchCourses (Resolved (JArray [Some pine_hills])) awaiting_app) \<and>
   collection (JArray [Some pine_hills]) \<and>
   views_shown (App (hooks (fetchCourses (Resolved (JArray [Some pine_hills])) awaiting_app))) = 1 \<and>
   App (hooks (fetchCourses (Resolved (JArray [Some pine_hills])) awaiting_app)) =
     Inr (CollectionView [course_card False pine_hills] None) \<and>
   reachable awaiting_detail \<and>
   views_shown (App_detail (hooks awaiting_detail)) = 1 \<and>
   App_detail (hooks awaiting_detail) = Inr LoadingView"
proof -
  have a: "reachable_app (fetchCourses (Resolved (JArray [Some pine_hills])) awaiting_app)"
    unfolding awaiting_app_def by (rule reachable_ready_app)
  have f: "FetchState (hooks (fetchCourses (Resolved (JArray [Some pine_hills])) awaiting_app))
             = Ready (JArray [Some pine_hills])"
    by (simp add: FetchState_def fetchCourses_resolved awaiting_app_eq setCourses_def
        setLoading_def)
  have k: "courses (hooks (fetchCourses (Resolved (JArray [Some pine_hills])) awaiting_app))
             = JArray [Some pine_hills]"
    by (simp add: fetchCourses_resolved setCourses_def setLoading_def)
  have p: "pc awaiting_detail \<noteq> Returned" and l: "loading (hooks awaiting_detail)"
    by (simp_all add: awaiting_detail_eq)
  note t = one_view_unless_not_collection
    [of "fetchCourses (Resolved (JArray [Some pine_hills])) awaiting_app" awaiting_detail]
  from t a k have 1:
    "views_shown (App (hooks (fetchCourses (Resolved (JArray [Some pine_hills])) awaiting_app))) = 1"
    by simp
  from t a f have 2:
    "App (hooks (fetchCourses (Resolved (JArray [Some pine_hills])) awaiting_app)) =
       Inr (CollectionView [course_card False pine_hills] None)"
    by simp
  from t reachable_awaiting_detail l p have 3:
    "views_shown (App_detail (hooks awaiting_detail)) = 1 \<and>
     App_detail (hooks awaiting_detail) = Inr LoadingView"
    by blast
  have col: "collection (JArray [Some pine_hills])" by simp
  from a col 1 2 3 reachable_awaiting_detail show ?thesis by blast
qed

text \<open>
  C2. As stated (every failing outcome, an undecodable body among them, ends in the failure
  state) the claim fails: a successful status with a body that is not JSON resolves, with
  the body as a string; the \<^verbatim>\<open>catch\<close> block does not run, \<^verbatim>\<open>error\<close> stays
  \<^verbatim>\<open>null\<close>, and the component throws instead of rendering the error view.
\<close>

theorem failure_masked_counterexample:
  "failing_outcome html_body \<and>
   reachable_app awaiting_app \<and> pc awaiting_app = AwaitingGet \<and>
   error (hooks (fetchCourses html_body awaiting_app)) = None \<and>
   FetchState (hooks (fetchCourses html_body awaiting_app)) =
     Ready (JString ''<html>Bad Gateway</html>'') \<and>
   App (hooks (fetchCourses html_body awaiting_app)) = Inl (TypeError ''courses'') \<and>
   \<not> error_view (App (hooks (fetchCourses html_body awaiting_app))) \<and>
   reachable awaiting_detail \<and> pc awaiting_detail = AwaitingGet \<and>
   error (hooks (fetchCourses html_body awaiting_detail)) = None \<and>
   App_detail (hooks (fetchCourses html_body awaiting_detail)) = Inl (TypeError ''courses'') \<and>
   \<not> error_view (App_detail (hooks (fetchCourses html_body awaiting_detail)))"
proof -
  have f: "failing_outcome html_body" by (simp add: html_body_def)
  have pa: "pc awaiting_app = AwaitingGet" by (simp add: awaiting_app_eq)
  have pd: "pc awaiting_detail = AwaitingGet" by (simp add: awaiting_detail_eq)
  have a: "error (hooks (fetchCourses html_body awaiting_app)) = None \<and>
      FetchState (hooks (fetchCourses html_body awaiting_app)) =
        Ready (JString ''<html>Bad Gateway</html>'') \<and>
      App (hooks (fetchCourses html_body awaiting_app)) = Inl (TypeError ''courses'')"
    by (simp add: html_body_app_eq FetchState_def App_def)
  have d: "error (hooks (fetchCourses html_body awaiting_detail)) = None \<and>
      App_detail (hooks (fetchCourses html_body awaiting_detail)) = Inl (TypeError ''courses'')"
    by (simp add: html_body_detail_eq App_detail_def)
  from f pa pd a d reachable_awaiting_app reachable_awaiting_detail show ?thesis by simp
qed

text \<open>
  C2, amended. Whatever \<^verbatim>\<open>axios.get\<close> throws (on a transport error or a status that
  is not a success), the \<^verbatim>\<open>catch\<close> block leaves the same state: \<^verbatim>\<open>error\<close> holds the
  fixed message \<^verbatim>\<open>Failed to fetch courses\<close>, both components render the error view
  with that message and no card grid, and two runs that differ only in the thrown error
  end in the same state and the same output.
\<close>

theorem failure_masked:
  "error (hooks (fetchCourses (Rejected e) a)) = Some ''Failed to fetch courses'' \<and>
   FetchState (hooks (fetchCourses (Rejected e) a)) = Failed ''Failed to fetch courses'' \<and>
   App (hooks (fetchCourses (Rejected e) a)) = Inr (ErrorView ''Error: Failed to fetch courses'') \<and>
   \<not> collection_view (App (hooks (fetchCourses (Rejected e) a))) \<and>
   App_detail (hooks (fetchCourses (Rejected e) c)) =
     Inr (ErrorView ''Error: Failed to fetch courses'') \<and>
   \<not> collection_view (App_detail (hooks (fetchCourses (Rejected e) c))) \<and>
   fetchCourses (Rejected e) a = fetchCourses (Rejected e') a \<and>
   App (hooks (fetchCourses (Rejected e) a)) = App (hooks (fetchCourses (Rejected e') a)) \<and>
   App_detail (hooks (fetchCourses (Rejected e) c)) =
     App_detail (hooks (fetchCourses (Rejected e') c))"
  by (simp add: fetchCourses_rejected setLoading_def setError_def FetchState_def App_def
      App_detail_def)

text \<open>
  C3. When the request is in flight and the response is an empty collection, the component
  renders the collection view with no card (and no overlay), not the error view and not
  the loading view.
\<close>

theorem empty_collection_grid:
  "(reachable_app a \<and> pc a = AwaitingGet \<longrightarrow>
      App (hooks (fetchCourses (Resolved (JArray [])) a)) = Inr (CollectionView [] None)) \<and>
   (reachable c \<and> pc c = AwaitingGet \<longrightarrow>
      App_detail (hooks (fetchCourses (Resolved (JArray [])) c)) = Inr (CollectionView [] None))"
proof (intro conjI impI)
  assume "reachable_app a \<and> pc a = AwaitingGet"
  then have "error (hooks a) = None"
    using reachable_app_inv [of a] by (simp add: fetch_inv_def)
  then show "App (hooks (fetchCourses (Resolved (JArray [])) a)) = Inr (CollectionView [] None)"
    by (simp add: fetchCourses_resolved setLoading_def setCourses_def App_def)
next
  assume h: "reachable c \<and> pc c = AwaitingGet"
  then have "error (hooks c) = None"
    using reachable_inv [of c] by (simp add: fetch_inv_def)
  moreover from h have "\<not> showModal (hooks c)"
    using reachable_sel_initial [of c] by (simp add: sel_initial_def)
  ultimately show
    "App_detail (hooks (fetchCourses (Resolved (JArray [])) c)) = Inr (CollectionView [] None)"
    by (simp add: fetchCourses_resolved setLoading_def setCourses_def App_detail_def)
qed

theorem empty_collection_grid_witness:
  "reachable_app awaiting_app \<and> pc awaiting_app = AwaitingGet \<and>
   App (hooks (fetchCourses (Resolved (JArray [])) awaiting_app)) = Inr (CollectionView [] None) \<and>
   reachable awaiting_detail \<and> pc awaiting_detail = AwaitingGet \<and>
   App_detail (hooks (fetchCourses (Resolved (JArray [])) awaiting_detail)) =
     Inr (CollectionView [] None)"
proof -
  have a: "reachable_app awaiting_app \<and> pc awaiting_app = AwaitingGet"
    by (simp add: reachable_awaiting_app) (simp add: awaiting_app_eq)
  have c: "reachable awaiting_detail \<and> pc awaiting_detail = AwaitingGet"
    by (simp add: reachable_awaiting_detail) (simp add: awaiting_detail_eq)
  from empty_collection_grid [of awaiting_app awaiting_detail] a c show ?thesis by blast
qed

text \<open>
  C4. As stated (visible if and only if a course is selected) the claim fails: after a card
  click and a click on the backdrop, a course is still selected and the overlay is not
  visible, because both dismissal handlers call only \<^verbatim>\<open>setShowModal(false)\<close>.
\<close>

theorem selection_iff_counterexample:
  "reachable dismissed_pine \<and>
   selectedCourse (hooks dismissed_pine) = Some pine_hills \<and>
   \<not> showModal (hooks dismissed_pine) \<and>
   \<not> (showModal (hooks dismissed_pine) \<longleftrightarrow> selectedCourse (hooks dismissed_pine) \<noteq> None)"
  by (simp add: reachable_dismissed_pine) (simp add: dismissed_pine_eq)

text \<open>
  C4, amended. In every reachable state of the detail variant, if the overlay is flagged
  visible then a course is selected.
\<close>

theorem visible_implies_selected:
  "reachable c \<Longrightarrow> showModal (hooks c) \<Longrightarrow> selectedCourse (hooks c) \<noteq> None"
  using reachable_sel_inv [of c] by (simp add: sel_inv_def)

theorem visible_implies_selected_witness:
  "reachable opened_pine \<and> showModal (hooks opened_pine) \<and>
   selectedCourse (hooks opened_pine) \<noteq> None"
proof -
  have v: "showModal (hooks opened_pine)" by (simp add: opened_pine_eq)
  from visible_implies_selected [OF reachable_opened_pine v] reachable_opened_pine v
  show ?thesis by blast
qed

text \<open>
  C5. A click on the backdrop sets \<^verbatim>\<open>showModal\<close> to false and keeps the selection. A
  click on the content runs the handler of the content only, which stops the propagation:
  the handler of the backdrop does not run and the state is unchanged. A click on the close
  button makes the same transition as a click on the backdrop.
\<close>

theorem overlay_clicks:
  "click Backdrop s = setShowModal False s \<and>
   \<not> showModal (click Backdrop s) \<and>
   selectedCourse (click Backdrop s) = selectedCourse s \<and>
   invoked (bubble_path s Content) = [ContentOnClick] \<and>
   OverlayOnClick \<notin> set (invoked (bubble_path s Content)) \<and>
   click Content s = s \<and>
   step (Click Content) c = c \<and>
   click CloseButton s = click Backdrop s \<and>
   step (Click CloseButton) c = step (Click Backdrop) c"
  by (simp add: click_def setShowModal_def)

text \<open>
  C6. The rating bar of the overlay is the rating of the selected course divided by 5 and
  multiplied by 100, each operation rounded to binary64. For a rating between 0 and 5 the
  result is within \<open>2 ^ -45\<close> of the exact \<open>rating / 5 * 100\<close>; for the whole ratings
  0 to 5 it is exactly that value; in particular it is 60 for 3, 100 for 5 and 0 for 0.
\<close>

theorem rating_bar_fill:
  "(selectedCourse s = Some c \<and> overlay_of (App_detail s) = Some m \<longrightarrow>
      rating_bar_width m =
        (case to_double (difficulty_rating c / 5) of
           Finite q \<Rightarrow> to_double (q * 100)
         | PosInfinity \<Rightarrow> PosInfinity
         | NegInfinity \<Rightarrow> NegInfinity) \<and>
      (0 \<le> difficulty_rating c \<and> difficulty_rating c \<le> 5 \<longrightarrow>
         (\<exists>y. rating_bar_width m = Finite y \<and>
              \<bar>y - difficulty_rating c / 5 * 100\<bar> \<le> 1 / 2 ^ 45)) \<and>
      (difficulty_rating c \<in> {0, 1, 2, 3, 4, 5} \<longrightarrow>
         rating_bar_width m = Finite (difficulty_rating c / 5 * 100)) \<and>
      (difficulty_rating c = 3 \<longrightarrow> rating_bar_width m = Finite 60) \<and>
      (difficulty_rating c = 5 \<longrightarrow> rating_bar_width m = Finite 100) \<and>
      (difficulty_rating c = 0 \<longrightarrow> rating_bar_width m = Finite 0)) \<and>
   (0 \<le> r \<and> r \<le> 5 \<longrightarrow>
      (\<exists>y. rating_width r = Finite y \<and> \<bar>y - r / 5 * 100\<bar> \<le> 1 / 2 ^ 45)) \<and>
   (r \<in> {0, 1, 2, 3, 4, 5} \<longrightarrow> rating_width r = Finite (r / 5 * 100)) \<and>
   rating_width 3 = Finite 60 \<and> rating_width 5 = Finite 100 \<and> rating_width 0 = Finite 0"
proof -
  have whole: "x \<in> {0, 1, 2, 3, 4, 5} \<longrightarrow> rating_width x = Finite (x / 5 * 100)" for x
    using rating_width_whole rating_width_0 by auto
  have bound: "0 \<le> x \<and> x \<le> 5 \<longrightarrow>
      (\<exists>y. rating_width x = Finite y \<and> \<bar>y - x / 5 * 100\<bar> \<le> 1 / 2 ^ 45)" for x
    using rating_width_error [of x] by blast
  have bar: "rating_bar_width m = rating_width (difficulty_rating c)"
    if "selectedCourse s = Some c \<and> overlay_of (App_detail s) = Some m"
    using that overlay_rating_bar [of s c m] by blast
  have overlay: "selectedCourse s = Some c \<and> overlay_of (App_detail s) = Some m \<longrightarrow>
      rating_bar_width m =
        (case to_double (difficulty_rating c / 5) of
           Finite q \<Rightarrow> to_double (q * 100)
         | PosInfinity \<Rightarrow> PosInfinity
         | NegInfinity \<Rightarrow> NegInfinity) \<and>
      (0 \<le> difficulty_rating c \<and> difficulty_rating c \<le> 5 \<longrightarrow>
         (\<exists>y. rating_bar_width m = Finite y \<and>
              \<bar>y - difficulty_rating c / 5 * 100\<bar> \<le> 1 / 2 ^ 45)) \<and>
      (difficulty_rating c \<in> {0, 1, 2, 3, 4, 5} \<longrightarrow>
         rating_bar_width m = Finite (difficulty_rating c / 5 * 100)) \<and>
      (difficulty_rating c = 3 \<longrightarrow> rating_bar_width m = Finite 60) \<and>
      (difficulty_rating c = 5 \<longrightarrow> rating_bar_width m = Finite 100) \<and>
      (difficulty_rating c = 0 \<longrightarrow> rating_bar_width m = Finite 0)"
  proof
    assume h: "selectedCourse s = Some c \<and> overlay_of (App_detail s) = Some m"
    note b = bar [OF h]
    have 1: "rating_bar_width m =
        (case to_double (difficulty_rating c / 5) of
           Finite q \<Rightarrow> to_double (q * 100)
         | PosInfinity \<Rightarrow> PosInfinity
         | NegInfinity \<Rightarrow> NegInfinity)"
      using b by (simp add: rating_width_def)
    have 2: "0 \<le> difficulty_rating c \<and> difficulty_rating c \<le> 5 \<longrightarrow>
         (\<exists>y. rating_bar_width m = Finite y \<and>
              \<bar>y - difficulty_rating c / 5 * 100\<bar> \<le> 1 / 2 ^ 45)"
      using b bound [of "difficulty_rating c"] by simp
    have 3: "difficulty_rating c \<in> {0, 1, 2, 3, 4, 5} \<longrightarrow>
         rating_bar_width m = Finite (difficulty_rating c / 5 * 100)"
      using b whole [of "difficulty_rating c"] by simp
    have 4: "difficulty_rating c = 3 \<longrightarrow> rating_bar_width m = Finite 60"
      using b rating_width_whole(3) by simp
    have 5: "difficulty_rating c = 5 \<longrightarrow> rating_bar_width m = Finite 100"
      using b rating_width_whole(5) by simp
    have 6: "difficulty_rating c = 0 \<longrightarrow> rating_bar_width m = Finite 0"
      using b rating_width_0 by simp
    from 1 2 3 4 5 6 show
      "rating_bar_width m =
        (case to_double (difficulty_rating c / 5) of
           Finite q \<Rightarrow> to_double (q * 100)
         | PosInfinity \<Rightarrow> PosInfinity
         | NegInfinity \<Rightarrow> NegInfinity) \<and>
      (0 \<le> difficulty_rating c \<and> difficulty_rating c \<le> 5 \<longrightarrow>
         (\<exists>y. rating_bar_width m = Finite y \<and>
              \<bar>y - difficulty_rating c / 5 * 100\<bar> \<le> 1 / 2 ^ 45)) \<and>
      (difficulty_rating c \<in> {0, 1, 2, 3, 4, 5} \<longrightarrow>
         rating_bar_width m = Finite (difficulty_rating c / 5 * 100)) \<and>
      (difficulty_rating c = 3 \<longrightarrow> rating_bar_width m = Finite 60) \<and>
      (difficulty_rating c = 5 \<longrightarrow> rating_bar_width m = Finite 100) \<and>
      (difficulty_rating c = 0 \<longrightarrow> rating_bar_width m = Finite 0)"
      by blast
  qed
  from overlay bound [of r] whole [of r] rating_width_whole(3) rating_width_whole(5) rating_width_0
  show ?thesis by blast
qed

theorem rating_bar_fill_witness:
  "selectedCourse (hooks opened_pine) = Some pine_hills \<and>
   difficulty_rating pine_hills = 3 \<and>
   (\<exists>m. overlay_of (App_detail (hooks opened_pine)) = Some m \<and> rating_bar_width m = Finite 60) \<and>
   (\<exists>y. rating_width (29 / 10) = Finite y \<and> \<bar>y - 58\<bar> \<le> 1 / 2 ^ 45) \<and>
   rating_width 4 = Finite 80"
proof -
  have s: "selectedCourse (hooks opened_pine) = Some pine_hills"
    by (simp add: opened_pine_eq)
  have d: "difficulty_rating pine_hills = 3" by (simp add: pine_hills_def)
  obtain m where m: "overlay_of (App_detail (hooks opened_pine)) = Some m"
    by (simp add: opened_pine_eq App_detail_cases)
  from rating_bar_fill [of "hooks opened_pine" pine_hills m "29 / 10"] s d m
  have 1: "rating_bar_width m = Finite 60" by blast
  have "(0::rat) \<le> 29 / 10 \<and> (29 / 10 :: rat) \<le> 5" by simp
  with rating_bar_fill [of "hooks opened_pine" pine_hills m "29 / 10"]
  have "\<exists>y. rating_width (29 / 10) = Finite y \<and> \<bar>y - 29 / 10 / 5 * 100\<bar> \<le> 1 / 2 ^ 45"
    by blast
  then have 2: "\<exists>y. rating_width (29 / 10) = Finite y \<and> \<bar>y - 58\<bar> \<le> 1 / 2 ^ 45" by simp
  have "(4::rat) \<in> {0, 1, 2, 3, 4, 5}" by simp
  with rating_bar_fill [of "hooks opened_pine" pine_hills m 4]
  have "rating_width 4 = Finite (4 / 5 * 100)" by blast
  then have 3: "rating_width 4 = Finite 80" by simp
  from s d m 1 2 3 show ?thesis by blast
qed

text \<open>
  C7. The lifecycle value only moves forward, in both components. It is \<open>Pending\<close> at
  the mount. Once it is not \<open>Pending\<close>, no run of further events changes it, nor the
  three hooks behind it, nor the number of requests (in \<^verbatim>\<open>App.jsx\<close> no event is
  possible at all any more). A step that leaves \<open>Pending\<close> is the last setter call of
  \<^verbatim>\<open>fetchCourses\<close> and lands in \<open>Ready\<close> with the stored data or in
  \<open>Failed\<close> with the fixed message. When the request in flight settles, the body of
  \<^verbatim>\<open>fetchCourses\<close> makes that move: to \<open>Ready\<close> of the response data, or to
  \<open>Failed\<close>.
\<close>

theorem fetch_state_forward:
  "(reachable_app a \<longrightarrow>
      (FetchState (hooks a) \<noteq> Pending \<and> exec_app fs a = Some a' \<longrightarrow> a' = a) \<and>
      (FetchState (hooks a) = Pending \<and> fetch_enabled fe a \<and>
       FetchState (hooks (fetch_step fe a)) \<noteq> Pending \<longrightarrow>
         fe = Resume \<and>
         (FetchState (hooks (fetch_step fe a)) = Ready (courses (hooks a)) \<or>
          FetchState (hooks (fetch_step fe a)) = Failed ''Failed to fetch courses'')) \<and>
      (pc a = AwaitingGet \<longrightarrow>
         FetchState (hooks a) = Pending \<and>
         FetchState (hooks (fetchCourses r a)) =
           (case r of Resolved d \<Rightarrow> Ready d | Rejected x \<Rightarrow> Failed ''Failed to fetch courses''))) \<and>
   (reachable c \<longrightarrow>
      (FetchState (hooks c) \<noteq> Pending \<and> exec es c = Some c' \<longrightarrow>
         FetchState (hooks c') = FetchState (hooks c) \<and>
         courses (hooks c') = courses (hooks c) \<and> loading (hooks c') = loading (hooks c) \<and>
         error (hooks c') = error (hooks c) \<and> pc c' = pc c \<and> requests c' = requests c) \<and>
      (FetchState (hooks c) = Pending \<and> enabled e c \<and>
       FetchState (hooks (step e c)) \<noteq> Pending \<longrightarrow>
         e = Fetch Resume \<and>
         (FetchState (hooks (step e c)) = Ready (courses (hooks c)) \<or>
          FetchState (hooks (step e c)) = Failed ''Failed to fetch courses'')) \<and>
      (pc c = AwaitingGet \<longrightarrow>
         FetchState (hooks c) = Pending \<and>
         FetchState (hooks (fetchCourses r c)) =
           (case r of Resolved d \<Rightarrow> Ready d | Rejected x \<Rightarrow> Failed ''Failed to fetch courses''))) \<and>
   FetchState (hooks mount_app) = Pending \<and> FetchState (hooks mount_detail) = Pending"
proof (intro conjI impI)
  assume r: "reachable_app a"
    and h: "FetchState (hooks a) \<noteq> Pending \<and> exec_app fs a = Some a'"
  then show "a' = a"
    using exec_app_settled [of a fs a'] reachable_app_inv [of a] by (simp add: FetchState_Pending)
next
  assume r: "reachable_app a"
    and h: "FetchState (hooks a) = Pending \<and> fetch_enabled fe a \<and>
            FetchState (hooks (fetch_step fe a)) \<noteq> Pending"
  from r have i: "fetch_inv a" by (rule reachable_app_inv)
  from h have en: "fetch_enabled fe a" and l: "loading (hooks a)"
    and nl: "\<not> loading (hooks (fetch_step fe a))"
    by (simp_all add: FetchState_Pending del: fetch_step.simps)
  note s = fetch_step_leaves_pending [OF i en l nl]
  from s show "fe = Resume" by (rule conjunct1)
  from s show "FetchState (hooks (fetch_step fe a)) = Ready (courses (hooks a)) \<or>
        FetchState (hooks (fetch_step fe a)) = Failed ''Failed to fetch courses''"
    by (rule conjunct2)
next
  assume r: "reachable_app a" and p: "pc a = AwaitingGet"
  from r have i: "fetch_inv a" by (rule reachable_app_inv)
  from i p show "FetchState (hooks a) = Pending"
    by (simp add: FetchState_Pending fetch_inv_def)
  from i p show "FetchState (hooks (fetchCourses r a)) =
      (case r of Resolved d \<Rightarrow> Ready d | Rejected x \<Rightarrow> Failed ''Failed to fetch courses'')"
    by (rule fetchCourses_settles)
next
  assume r: "reachable c"
    and h: "FetchState (hooks c) \<noteq> Pending \<and> exec es c = Some c'"
  then have l: "\<not> loading (hooks c)" and x: "exec es c = Some c'"
    by (simp_all add: FetchState_Pending)
  note s = exec_settled [OF r l x]
  from s show "FetchState (hooks c') = FetchState (hooks c)" by (simp add: FetchState_def)
  from s show "courses (hooks c') = courses (hooks c)" by simp
  from s show "loading (hooks c') = loading (hooks c)" by simp
  from s show "error (hooks c') = error (hooks c)" by simp
  from s show "pc c' = pc c" by simp
  from s show "requests c' = requests c" by simp
next
  assume r: "reachable c"
    and h: "FetchState (hooks c) = Pending \<and> enabled e c \<and>
            FetchState (hooks (step e c)) \<noteq> Pending"
  from r have i: "fetch_inv c" by (rule reachable_inv)
  have "e = Fetch Resume \<and>
        (FetchState (hooks (step e c)) = Ready (courses (hooks c)) \<or>
         FetchState (hooks (step e c)) = Failed ''Failed to fetch courses'')"
  proof (cases e)
    case (Fetch fe)
    with h have en: "fetch_enabled fe c" and l: "loading (hooks c)"
      and nl: "\<not> loading (hooks (fetch_step fe c))"
      by (simp_all add: FetchState_Pending del: fetch_step.simps)
    from fetch_step_leaves_pending [OF i en l nl] Fetch show ?thesis
      by (auto simp del: fetch_step.simps)
  next
    case (Click t)
    with h show ?thesis by (auto simp add: FetchState_Pending click_fetch_fields)
  qed
  then show "e = Fetch Resume"
    and "FetchState (hooks (step e c)) = Ready (courses (hooks c)) \<or>
         FetchState (hooks (step e c)) = Failed ''Failed to fetch courses''"
    by blast+
next
  assume r: "reachable c" and p: "pc c = AwaitingGet"
  from r have i: "fetch_inv c" by (rule reachable_inv)
  from i p show "FetchState (hooks c) = Pending"
    by (simp add: FetchState_Pending fetch_inv_def)
  from i p show "FetchState (hooks (fetchCourses r c)) =
      (case r of Resolved d \<Rightarrow> Ready d | Rejected x \<Rightarrow> Failed ''Failed to fetch courses'')"
    by (rule fetchCourses_settles)
next
  show "FetchState (hooks mount_app) = Pending"
    by (simp add: FetchState_def mount_app_def initial_app_state_def)
  show "FetchState (hooks mount_detail) = Pending"
    by (simp add: FetchState_def mount_detail_def initial_detail_state_def)
qed

theorem fetch_state_forward_witness:
  "reachable ready_pine \<and> FetchState (hooks ready_pine) = Ready (JArray [Some pine_hills]) \<and>
   exec [Click (Card 0), Click Backdrop] ready_pine = Some dismissed_pine \<and>
   FetchState (hooks dismissed_pine) = Ready (JArray [Some pine_hills]) \<and>
   requests dismissed_pine = 1 \<and>
   reachable settled_pine \<and> FetchState (hooks settled_pine) = Pending \<and>
   enabled (Fetch Resume) settled_pine \<and>
   FetchState (hooks (step (Fetch Resume) settled_pine)) = Ready (JArray [Some pine_hills]) \<and>
   reachable awaiting_detail \<and> pc awaiting_detail = AwaitingGet \<and>
   FetchState (hooks (fetchCourses (Rejected (AxiosError ''Network Error'' ''ERR_NETWORK'' None))
     awaiting_detail)) = Failed ''Failed to fetch courses'' \<and>
   reachable_app awaiting_app \<and> pc awaiting_app = AwaitingGet \<and>
   FetchState (hooks (fetchCourses (Resolved (JArray [Some pine_hills])) awaiting_app)) = Ready (JArray [Some pine_hills])"
proof -
  have f: "FetchState (hooks ready_pine) = Ready (JArray [Some pine_hills])"
    by (simp add: ready_pine_eq FetchState_def)
  then have np: "FetchState (hooks ready_pine) \<noteq> Pending" by simp
  have q: "requests ready_pine = 1" by (simp add: ready_pine_eq)
  from fetch_state_forward [of awaiting_app "[]" awaiting_app Resume "Resolved (JArray [Some pine_hills])"
      ready_pine "[Click (Card 0), Click Backdrop]" dismissed_pine "Fetch Resume"]
    reachable_ready_pine np exec_ready_dismissed
  have 1: "FetchState (hooks dismissed_pine) = FetchState (hooks ready_pine) \<and>
           requests dismissed_pine = requests ready_pine"
    by blast
  have sp: "FetchState (hooks settled_pine) = Pending"
    by (simp add: settled_pine_eq FetchState_def)
  have en: "enabled (Fetch Resume) settled_pine" by (simp add: settled_pine_eq)
  have 2: "FetchState (hooks (step (Fetch Resume) settled_pine)) = Ready (JArray [Some pine_hills])"
    by (simp add: settled_pine_eq FetchState_def setLoading_def)
  have pa: "pc awaiting_detail = AwaitingGet" by (simp add: awaiting_detail_eq)
  have pb: "pc awaiting_app = AwaitingGet" by (simp add: awaiting_app_eq)
  from fetch_state_forward [of awaiting_app "[]" awaiting_app Resume "Resolved (JArray [Some pine_hills])"
      awaiting_detail "[]" awaiting_detail "Fetch Resume"]
    reachable_awaiting_app pb
  have 3: "FetchState (hooks (fetchCourses (Resolved (JArray [Some pine_hills])) awaiting_app)) =
           (case Resolved (JArray [Some pine_hills]) of Resolved d \<Rightarrow> Ready d
            | Rejected x \<Rightarrow> Failed ''Failed to fetch courses'')"
    by blast
  from fetch_state_forward [of awaiting_app "[]" awaiting_app Resume
      "Rejected (AxiosError ''Network Error'' ''ERR_NETWORK'' None)"
      awaiting_detail "[]" awaiting_detail "Fetch Resume"]
    reachable_awaiting_detail pa
  have 4: "FetchState (hooks (fetchCourses (Rejected (AxiosError ''Network Error'' ''ERR_NETWORK'' None))
             awaiting_detail)) =
           (case Rejected (AxiosError ''Network Error'' ''ERR_NETWORK'' None) of Resolved d \<Rightarrow> Ready d
            | Rejected x \<Rightarrow> Failed ''Failed to fetch courses'')"
    by blast
  from 1 f q have r1: "FetchState (hooks dismissed_pine) = Ready (JArray [Some pine_hills])"
    "requests dismissed_pine = 1" by simp_all
  from 3 have r3: "FetchState (hooks (fetchCourses (Resolved (JArray [Some pine_hills])) awaiting_app)) =
      Ready (JArray [Some pine_hills])" by simp
  from 4 have r4: "FetchState (hooks (fetchCourses (Rejected (AxiosError ''Network Error'' ''ERR_NETWORK'' None))
             awaiting_detail)) = Failed ''Failed to fetch courses''" by simp
  from reachable_ready_pine f exec_ready_dismissed r1 reachable_settled_pine sp en 2
    reachable_awaiting_detail pa r4 reachable_awaiting_app pb r3
  show ?thesis by blast
qed

text \<open>
  C8. On success with a collection of records, the response data is stored as received and
  rendered in that order: the output is the collection view whose i-th card is the card
  of the i-th record, keyed by the \<^verbatim>\<open>id\<close> of that record.
\<close>

theorem order_as_received:
  "(reachable_app a \<and> pc a = AwaitingGet \<longrightarrow>
      courses (hooks (fetchCourses (Resolved (JArray (map Some d))) a)) = JArray (map Some d) \<and>
      App (hooks (fetchCourses (Resolved (JArray (map Some d))) a)) =
        Inr (CollectionView (map (course_card False) d) None) \<and>
      length (cards_of (App (hooks (fetchCourses (Resolved (JArray (map Some d))) a)))) = length d \<and>
      (\<forall>i<length d.
         cards_of (App (hooks (fetchCourses (Resolved (JArray (map Some d))) a))) ! i =
           course_card False (d ! i) \<and>
         key (cards_of (App (hooks (fetchCourses (Resolved (JArray (map Some d))) a))) ! i) =
           id_course (d ! i))) \<and>
   (reachable c \<and> pc c = AwaitingGet \<longrightarrow>
      courses (hooks (fetchCourses (Resolved (JArray (map Some d))) c)) = JArray (map Some d) \<and>
      App_detail (hooks (fetchCourses (Resolved (JArray (map Some d))) c)) =
        Inr (CollectionView (map (course_card True) d) None) \<and>
      (\<forall>i<length d.
         cards_of (App_detail (hooks (fetchCourses (Resolved (JArray (map Some d))) c))) ! i =
           course_card True (d ! i) \<and>
         key (cards_of (App_detail (hooks (fetchCourses (Resolved (JArray (map Some d))) c))) ! i) =
           id_course (d ! i)))"
proof (intro conjI impI)
  assume "reachable_app a \<and> pc a = AwaitingGet"
  then have e: "error (hooks a) = None"
    using reachable_app_inv [of a] by (simp add: fetch_inv_def)
  show "courses (hooks (fetchCourses (Resolved (JArray (map Some d))) a)) = JArray (map Some d)"
    by (simp add: fetchCourses_resolved setLoading_def setCourses_def)
  from e show v: "App (hooks (fetchCourses (Resolved (JArray (map Some d))) a)) =
      Inr (CollectionView (map (course_card False) d) None)"
    by (simp add: fetchCourses_resolved setLoading_def setCourses_def App_cases)
  from v show
    "length (cards_of (App (hooks (fetchCourses (Resolved (JArray (map Some d))) a)))) = length d"
    by simp
  from v show "\<forall>i<length d.
      cards_of (App (hooks (fetchCourses (Resolved (JArray (map Some d))) a))) ! i =
        course_card False (d ! i) \<and>
      key (cards_of (App (hooks (fetchCourses (Resolved (JArray (map Some d))) a))) ! i) =
        id_course (d ! i)"
    by (simp add: course_card_def)
next
  assume h: "reachable c \<and> pc c = AwaitingGet"
  then have e: "error (hooks c) = None"
    using reachable_inv [of c] by (simp add: fetch_inv_def)
  from h have m: "\<not> showModal (hooks c)"
    using reachable_sel_initial [of c] by (simp add: sel_initial_def)
  show "courses (hooks (fetchCourses (Resolved (JArray (map Some d))) c)) = JArray (map Some d)"
    by (simp add: fetchCourses_resolved setLoading_def setCourses_def)
  from e m show v: "App_detail (hooks (fetchCourses (Resolved (JArray (map Some d))) c)) =
      Inr (CollectionView (map (course_card True) d) None)"
    by (simp add: fetchCourses_resolved setLoading_def setCourses_def App_detail_cases)
  from v show "\<forall>i<length d.
      cards_of (App_detail (hooks (fetchCourses (Resolved (JArray (map Some d))) c))) ! i =
        course_card True (d ! i) \<and>
      key (cards_of (App_detail (hooks (fetchCourses (Resolved (JArray (map Some d))) c))) ! i) =
        id_course (d ! i)"
    by (simp add: course_card_def)
qed

theorem order_as_received_witness:
  "reachable_app awaiting_app \<and> pc awaiting_app = AwaitingGet \<and>
   courses (hooks (fetchCourses (Resolved (JArray [Some pine_hills, Some cedar_links])) awaiting_app)) =
     JArray [Some pine_hills, Some cedar_links] \<and>
   cards_of (App (hooks (fetchCourses (Resolved (JArray [Some pine_hills, Some cedar_links]))
     awaiting_app))) ! 1 = course_card False cedar_links \<and>
   key (cards_of (App (hooks (fetchCourses (Resolved (JArray [Some pine_hills, Some cedar_links]))
     awaiting_app))) ! 1) = 2 \<and>
   reachable awaiting_detail \<and> pc awaiting_detail = AwaitingGet \<and>
   cards_of (App_detail (hooks (fetchCourses (Resolved (JArray [Some pine_hills, Some cedar_links]))
     awaiting_detail))) ! 1 = course_card True cedar_links"
proof -
  have a: "reachable_app awaiting_app \<and> pc awaiting_app = AwaitingGet"
    by (simp add: reachable_awaiting_app) (simp add: awaiting_app_eq)
  have c: "reachable awaiting_detail \<and> pc awaiting_detail = AwaitingGet"
    by (simp add: reachable_awaiting_detail) (simp add: awaiting_detail_eq)
  have k: "id_course cedar_links = 2" by (simp add: cedar_links_def)
  have d: "map Some [pine_hills, cedar_links] = [Some pine_hills, Some cedar_links]" by simp
  note t = order_as_received [of awaiting_app "[pine_hills, cedar_links]" awaiting_detail,
      unfolded d]
  from t a have ta:
    "courses (hooks (fetchCourses (Resolved (JArray [Some pine_hills, Some cedar_links])) awaiting_app)) =
       JArray [Some pine_hills, Some cedar_links] \<and>
     App (hooks (fetchCourses (Resolved (JArray [Some pine_hills, Some cedar_links])) awaiting_app)) =
       Inr (CollectionView (map (course_card False) [pine_hills, cedar_links]) None)"
    by blast
  from t c have tc:
    "App_detail (hooks (fetchCourses (Resolved (JArray [Some pine_hills, Some cedar_links])) awaiting_detail)) =
       Inr (CollectionView (map (course_card True) [pine_hills, cedar_links]) None)"
    by blast
  from ta tc a c k show ?thesis by (simp add: course_card_def)
qed

text \<open>
  C9. A click on a rendered card selects the course of that card, which is a record and not
  \<^verbatim>\<open>null\<close>, and sets \<^verbatim>\<open>showModal\<close> to true, and changes nothing else: the stored
  data, the loading flag, the error, the control state of \<^verbatim>\<open>fetchCourses\<close> and the
  number of requests stay as they were.
\<close>

theorem card_click_frame:
  "enabled (Click (Card i)) c \<Longrightarrow>
     i < length (elements (courses (hooks c))) \<and>
     elements (courses (hooks c)) ! i \<noteq> None \<and>
     step (Click (Card i)) c =
       c\<lparr>hooks := (hooks c)\<lparr>selectedCourse := elements (courses (hooks c)) ! i,
                               showModal := True\<rparr>\<rparr> \<and>
     selectedCourse (hooks (step (Click (Card i)) c)) = elements (courses (hooks c)) ! i \<and>
     showModal (hooks (step (Click (Card i)) c)) \<and>
     courses (hooks (step (Click (Card i)) c)) = courses (hooks c) \<and>
     loading (hooks (step (Click (Card i)) c)) = loading (hooks c) \<and>
     error (hooks (step (Click (Card i)) c)) = error (hooks c) \<and>
     pc (step (Click (Card i)) c) = pc c \<and>
     requests (step (Click (Card i)) c) = requests c"
proof -
  assume "enabled (Click (Card i)) c"
  then have i: "i < length (elements (courses (hooks c))) \<and>
      elements (courses (hooks c)) ! i \<noteq> None"
    using rendered_card_index [of "hooks c" i] by simp
  then show ?thesis
    by (simp add: click_def setShowModal_def setSelectedCourse_def)
qed

theorem card_click_frame_witness:
  "enabled (Click (Card 0)) ready_pine \<and>
   selectedCourse (hooks (step (Click (Card 0)) ready_pine)) = Some pine_hills \<and>
   showModal (hooks (step (Click (Card 0)) ready_pine)) \<and>
   courses (hooks (step (Click (Card 0)) ready_pine)) = JArray [Some pine_hills] \<and>
   requests (step (Click (Card 0)) ready_pine) = 1"
proof -
  have c: "courses (hooks ready_pine) = JArray [Some pine_hills]" "requests ready_pine = 1"
    by (simp_all add: ready_pine_eq)
  from card_click_frame [OF enabled_card_ready_pine] enabled_card_ready_pine c
  show ?thesis by simp
qed

text \<open>
  C10. In any state of the hooks, reachable or not, the detail variant renders an overlay
  only if \<^verbatim>\<open>showModal\<close> is true and a course is selected; with \<^verbatim>\<open>showModal\<close> true
  and nothing selected it renders no overlay, and it never throws the TypeError that
  reading a property of a \<^verbatim>\<open>null\<close> selection would. The only exception it can throw is
  that of \<^verbatim>\<open>courses.map\<close> on data that is not a collection.
\<close>

theorem overlay_guard:
  "App_detail s \<noteq> Inl (TypeError ''selectedCourse'') \<and>
   (overlay_of (App_detail s) \<noteq> None \<longrightarrow> showModal s \<and> selectedCourse s \<noteq> None) \<and>
   (showModal s \<and> selectedCourse s = None \<longrightarrow> overlay_of (App_detail s) = None) \<and>
   (overlay_of (App_detail s) \<noteq> None \<longleftrightarrow>
      \<not> loading s \<and> \<not> truthy (error s) \<and> collection (courses s) \<and>
      showModal s \<and> selectedCourse s \<noteq> None) \<and>
   ((\<exists>x. App_detail s = Inl x) \<longleftrightarrow>
      \<not> loading s \<and> \<not> truthy (error s) \<and> \<not> collection (courses s)) \<and>
   (\<forall>x. App_detail s = Inl x \<longrightarrow> x = map_error (courses s) \<and> x \<noteq> TypeError ''selectedCourse'')"
proof -
  have n: "map_error v \<noteq> TypeError ''selectedCourse''" for v by (cases v) simp_all
  then show ?thesis by (simp add: App_detail_cases)
qed

theorem overlay_guard_witness:
  "showModal visible_unselected \<and> selectedCourse visible_unselected = None \<and>
   modal_markup (selectedCourse visible_unselected) = Inl (TypeError ''selectedCourse'') \<and>
   App_detail visible_unselected \<noteq> Inl (TypeError ''selectedCourse'') \<and>
   overlay_of (App_detail visible_unselected) = None"
proof -
  have h: "showModal visible_unselected \<and> selectedCourse visible_unselected = None"
    by (simp add: visible_unselected_def)
  then have "modal_markup (selectedCourse visible_unselected) = Inl (TypeError ''selectedCourse'')" by simp
  with h overlay_guard [of visible_unselected] show ?thesis by blast
qed

end
